theory Spec2Isabelle
  imports Main
begin

section \<open>JSON values and the Python operations the program applies to them\<close>

text \<open>
  Everything the provider and the HTTP caller send is decoded JSON. A value of \<open>json\<close> is the
  Python object that \<open>json.loads\<close> yields: \<open>JNull\<close> is \<open>None\<close>, \<open>JObj\<close> is a \<open>dict\<close> (an
  association list read with \<open>map_of\<close>, its keys being those of the decoded dict), \<open>JList\<close> a
  \<open>list\<close>. Numbers are the integers; floating point values are outside the model.
\<close>

datatype json =
    JNull
  | JBool bool
  | JNum int
  | JStr string
  | JList "json list"
  | JObj "(string \<times> json) list"

text \<open>
  The exceptions of \<open>api/index.py\<close>, and the built-in ones that the operations on decoded JSON
  can raise. \<open>AccountCreationError\<close> and \<open>MessageTimeoutError\<close> are subclasses of \<open>MailTmError\<close>;
  the messages the exceptions carry are not modelled.
\<close>

datatype error =
    MailTmError
  | AccountCreationError
  | MessageTimeoutError
  | ValueError
  | KeyError
  | TypeError
  | AttributeError
  | IndexError

text \<open>What an \<open>except MailTmError\<close> clause catches.\<close>

fun is_MailTmError :: "error \<Rightarrow> bool" where
  "is_MailTmError MailTmError = True"
| "is_MailTmError AccountCreationError = True"
| "is_MailTmError MessageTimeoutError = True"
| "is_MailTmError _ = False"

text \<open>Python's truth value, as used by \<open>if x\<close> and \<open>not x\<close>.\<close>

fun truthy :: "json \<Rightarrow> bool" where
  "truthy JNull = False"
| "truthy (JBool b) = b"
| "truthy (JNum n) = (n \<noteq> 0)"
| "truthy (JStr s) = (s \<noteq> [])"
| "truthy (JList xs) = (xs \<noteq> [])"
| "truthy (JObj kvs) = (kvs \<noteq> [])"

text \<open>\<open>x[key]\<close> for a string key.\<close>

fun getitem :: "json \<Rightarrow> string \<Rightarrow> error + json" where
  "getitem (JObj kvs) key = (case map_of kvs key of None \<Rightarrow> Inl KeyError | Some v \<Rightarrow> Inr v)"
| "getitem _ key = Inl TypeError"

text \<open>\<open>x[0]\<close>.\<close>

fun getitem0 :: "json \<Rightarrow> error + json" where
  "getitem0 (JList []) = Inl IndexError"
| "getitem0 (JList (x # xs)) = Inr x"
| "getitem0 (JStr []) = Inl IndexError"
| "getitem0 (JStr (c # cs)) = Inr (JStr [c])"
| "getitem0 (JObj kvs) = Inl KeyError"
| "getitem0 _ = Inl TypeError"

text \<open>\<open>x.get(key, default)\<close>: only a dict has the method.\<close>

fun dict_get :: "json \<Rightarrow> string \<Rightarrow> json \<Rightarrow> error + json" where
  "dict_get (JObj kvs) key dflt = Inr (case map_of kvs key of None \<Rightarrow> dflt | Some v \<Rightarrow> v)"
| "dict_get _ key dflt = Inl AttributeError"

text \<open>The elements that \<open>for mb in x\<close> visits: a dict yields its keys, a string its characters.\<close>

fun iterate :: "json \<Rightarrow> error + json list" where
  "iterate (JList xs) = Inr xs"
| "iterate (JObj kvs) = Inr (map (\<lambda>kv. JStr (fst kv)) kvs)"
| "iterate (JStr s) = Inr (map (\<lambda>c. JStr [c]) s)"
| "iterate _ = Inl TypeError"

text \<open>\<open>s in t\<close> for two strings: \<open>s\<close> occurs in \<open>t\<close> as a contiguous piece.\<close>

fun is_prefix :: "string \<Rightarrow> string \<Rightarrow> bool" where
  "is_prefix [] t = True"
| "is_prefix (c # s) [] = False"
| "is_prefix (c # s) (d # t) = (c = d \<and> is_prefix s t)"

fun is_substring :: "string \<Rightarrow> string \<Rightarrow> bool" where
  "is_substring s [] = (s = [])"
| "is_substring s (d # t) = (is_prefix s (d # t) \<or> is_substring s t)"

text \<open>\<open>key in x\<close> for a string key.\<close>

fun contains :: "json \<Rightarrow> string \<Rightarrow> error + bool" where
  "contains (JObj kvs) key = Inr (map_of kvs key \<noteq> None)"
| "contains (JList xs) key = Inr (JStr key \<in> set xs)"
| "contains (JStr s) key = Inr (is_substring key s)"
| "contains _ key = Inl TypeError"

section \<open>The environment: provider, random source, clock\<close>

datatype http_method = GET | POST | DELETE

text \<open>
  The endpoint of a request, for the f-strings of the source:
  \<open>Accounts\<close> is \<open>"accounts"\<close>, \<open>Account a\<close> is \<open>f"accounts/{a}"\<close> and
  \<open>Messages a m\<close> is \<open>f"accounts/{a}/mailboxes/{m}/messages"\<close>.
\<close>

datatype endpoint =
    Accounts
  | Account json
  | Messages json json

text \<open>A call of \<open>_request\<close>: method, endpoint and the \<open>json=\<close> payload, if any.\<close>

datatype http_request = Request http_method endpoint "json option"

text \<open>
  What \<open>self.session.request\<close>, \<open>raise_for_status\<close>, the test for status 204 and
  \<open>response.json()\<close> come to for one call:
  \<open>HTTPStatusError\<close> and \<open>RequestError\<close> are the two httpx exceptions that \<open>_request\<close> catches,
  \<open>NoContent\<close> is status 204, \<open>Body j\<close> a successful response whose body decodes to \<open>j\<close>,
  \<open>Undecodable\<close> a successful response whose body is not JSON (\<open>response.json()\<close> raises a
  \<open>ValueError\<close>, which \<open>_request\<close> does not catch).
\<close>

datatype outcome =
    HTTPStatusError
  | RequestError
  | NoContent
  | Body json
  | Undecodable

text \<open>
  The parts of a run that the program does not decide:
  \<open>upstream k r\<close> is the provider's answer to request \<open>r\<close> when it is call number \<open>k\<close>
  (counted from 0), \<open>latency k\<close> the time that call takes, \<open>draws n\<close> the \<open>n\<close>-th number of the
  random source, and \<open>int_of_str\<close> is \<open>int(s)\<close> for a string (\<open>None\<close> where Python raises
  \<open>ValueError\<close>).
\<close>

record env =
  upstream :: "nat \<Rightarrow> http_request \<Rightarrow> outcome"
  latency :: "nat \<Rightarrow> nat"
  draws :: "nat \<Rightarrow> nat"
  int_of_str :: "string \<Rightarrow> int option"

text \<open>
  What a run changes outside the client object: the requests sent so far, the delays slept so
  far, the event loop's clock, the number of random draws made, and the number of sessions
  closed.
\<close>

record world =
  calls :: "http_request list"
  sleeps :: "int list"
  now :: int
  rng_pos :: nat
  sessions_closed :: nat

text \<open>\<open>asyncio.sleep(d)\<close>: a delay that is not positive returns at once.\<close>

definition sleep :: "int \<Rightarrow> world \<Rightarrow> world" where
  "sleep d w = w\<lparr>sleeps := sleeps w @ [d], now := now w + max 0 d\<rparr>"

section \<open>The random user name\<close>

definition letters :: string where
  "letters = ''abcdefghijklmnopqrstuvwxyz0123456789''"

text \<open>
  \<open>random.choice(seq)\<close> is \<open>seq[i]\<close> for a random \<open>i\<close> below \<open>len(seq)\<close>; it is only called on
  \<open>letters\<close>, which is not empty.
\<close>

definition random_choice :: "env \<Rightarrow> 'a list \<Rightarrow> world \<Rightarrow> 'a \<times> world" where
  "random_choice e seq w =
     (seq ! (draws e (rng_pos w) mod length seq), w\<lparr>rng_pos := Suc (rng_pos w)\<rparr>)"

fun generate_random_username :: "env \<Rightarrow> nat \<Rightarrow> world \<Rightarrow> string \<times> world" where
  "generate_random_username e 0 w = ([], w)"
| "generate_random_username e (Suc n) w =
     (case random_choice e letters w of
        (c, w1) \<Rightarrow> (case generate_random_username e n w1 of (cs, w2) \<Rightarrow> (c # cs, w2)))"

section \<open>MailTmClient\<close>

text \<open>
  The four fields that \<open>__init__\<close> sets to \<open>None\<close>. The two identifiers hold whatever the provider
  or the HTTP caller supplied, so they are JSON values, \<open>JNull\<close> being \<open>None\<close>.
\<close>

record client =
  address :: "string option"
  password :: "string option"
  account_id :: json
  mailbox_id :: json

definition MailTmClient :: "string \<Rightarrow> error + client" where
  "MailTmClient api_key =
     (if api_key = [] then Inl ValueError
      else Inr \<lparr>address = None, password = None, account_id = JNull, mailbox_id = JNull\<rparr>)"

text \<open>\<open>_request\<close>: one call to the provider, logged in the world.\<close>

definition request :: "env \<Rightarrow> http_method \<Rightarrow> endpoint \<Rightarrow> json option \<Rightarrow> world
    \<Rightarrow> (error + json) \<times> world" where
  "request e m ep body w =
     (let k = length (calls w);
          r = Request m ep body;
          w1 = w\<lparr>calls := calls w @ [r], now := now w + int (latency e k)\<rparr>
      in case upstream e k r of
           HTTPStatusError \<Rightarrow> (Inl MailTmError, w1)
         | RequestError \<Rightarrow> (Inl MailTmError, w1)
         | NoContent \<Rightarrow> (Inr JNull, w1)
         | Body j \<Rightarrow> (Inr j, w1)
         | Undecodable \<Rightarrow> (Inl ValueError, w1))"

definition create_account :: "env \<Rightarrow> string \<Rightarrow> string \<Rightarrow> world \<Rightarrow> (error + json) \<times> world" where
  "create_account e addr pw w =
     request e POST Accounts (Some (JObj [(''address'', JStr addr), (''password'', JStr pw)])) w"

text \<open>\<open>next((mb for mb in mailboxes if mb.get("path") == "INBOX"), None)\<close> over the elements.\<close>

fun find_inbox :: "json list \<Rightarrow> error + json option" where
  "find_inbox [] = Inr None"
| "find_inbox (mb # mbs) =
     (case dict_get mb ''path'' JNull of
        Inl err \<Rightarrow> Inl err
      | Inr p \<Rightarrow> if p = JStr ''INBOX'' then Inr (Some mb) else find_inbox mbs)"

text \<open>
  The part of the \<open>try\<close> block of \<open>create_new_account\<close> after the account id is stored: it
  resolves the inbox and stores its id. The result is the exception raised, if any, and the
  instance as the block leaves it.
\<close>

definition resolve_inbox :: "json \<Rightarrow> client \<Rightarrow> error option \<times> client" where
  "resolve_inbox account_data inst =
     (case dict_get account_data ''mailboxes'' (JList []) of
        Inl err \<Rightarrow> (Some err, inst)
      | Inr mailboxes \<Rightarrow>
          (case iterate mailboxes of
             Inl err \<Rightarrow> (Some err, inst)
           | Inr mbs \<Rightarrow>
               (case find_inbox mbs of
                  Inl err \<Rightarrow> (Some err, inst)
                | Inr None \<Rightarrow> (Some MailTmError, inst)
                | Inr (Some inbox) \<Rightarrow>
                    if \<not> truthy inbox then (Some MailTmError, inst)
                    else (case getitem inbox ''id'' of
                            Inl err \<Rightarrow> (Some err, inst)
                          | Inr mid \<Rightarrow> (None, inst\<lparr>mailbox_id := mid\<rparr>)))))"

text \<open>One pass through the \<open>try\<close> block of \<open>create_new_account\<close>.\<close>

definition try_create :: "env \<Rightarrow> string \<Rightarrow> string \<Rightarrow> client \<Rightarrow> world
    \<Rightarrow> error option \<times> client \<times> world" where
  "try_create e domain pw inst w =
     (case generate_random_username e 10 w of
        (username, w1) \<Rightarrow>
          (let addr = username @ ''@'' @ domain in
           case create_account e addr pw w1 of
             (Inl err, w2) \<Rightarrow> (Some err, inst, w2)
           | (Inr account_data, w2) \<Rightarrow>
               (case getitem account_data ''id'' of
                  Inl err \<Rightarrow> (Some err, inst, w2)
                | Inr aid \<Rightarrow>
                    (case resolve_inbox account_data
                            (inst\<lparr>account_id := aid, address := Some addr, password := Some pw\<rparr>) of
                       (r, inst1) \<Rightarrow> (r, inst1, w2)))))"

text \<open>
  The \<open>for attempt in range(max_retries)\<close> loop with its \<open>except MailTmError\<close> clause, from
  \<open>attempt\<close> on; after the loop comes the final \<open>raise AccountCreationError\<close>.
\<close>

function create_loop :: "env \<Rightarrow> string \<Rightarrow> string \<Rightarrow> int \<Rightarrow> int \<Rightarrow> client \<Rightarrow> world
    \<Rightarrow> (error + client) \<times> world" where
  "create_loop e domain pw max_retries attempt inst w =
     (if attempt < max_retries then
        (case try_create e domain pw inst w of
           (None, inst1, w1) \<Rightarrow> (Inr inst1, w1)
         | (Some err, inst1, w1) \<Rightarrow>
             if is_MailTmError err then
               (if attempt < max_retries - 1
                then create_loop e domain pw max_retries (attempt + 1) inst1 (sleep 3 w1)
                else (Inl AccountCreationError, w1))
             else (Inl err, w1))
      else (Inl AccountCreationError, w))"
  by pat_completeness auto
termination
  by (relation "measure (\<lambda>(e, domain, pw, max_retries, attempt, inst, w). nat (max_retries - attempt))")
    auto

declare create_loop.simps [simp del]

definition create_new_account :: "env \<Rightarrow> string \<Rightarrow> string \<Rightarrow> string \<Rightarrow> int \<Rightarrow> world
    \<Rightarrow> (error + client) \<times> world" where
  "create_new_account e api_key domain pw max_retries w =
     (case MailTmClient api_key of
        Inl err \<Rightarrow> (Inl err, w)
      | Inr inst \<Rightarrow> create_loop e domain pw max_retries 0 inst w)"

definition get_latest_message :: "env \<Rightarrow> client \<Rightarrow> world \<Rightarrow> (error + json) \<times> world" where
  "get_latest_message e c w =
     (if \<not> truthy (account_id c) \<or> \<not> truthy (mailbox_id c) then (Inl MailTmError, w)
      else
        (case request e GET (Messages (account_id c) (mailbox_id c)) None w of
           (Inl err, w1) \<Rightarrow> (Inl err, w1)
         | (Inr messages, w1) \<Rightarrow>
             if truthy messages then
               (case getitem0 messages of
                  Inl err \<Rightarrow> (Inl err, w1)
                | Inr latest_message \<Rightarrow>
                    (case dict_get latest_message ''intro'' JNull of
                       Inl err \<Rightarrow> (Inl err, w1)
                     | Inr intro \<Rightarrow> (Inr latest_message, w1)))
             else (Inr JNull, w1)))"

text \<open>
  The \<open>while\<close> loop of \<open>wait_for_message\<close> and the \<open>raise\<close> after it. The loop need not end, so the
  result is an option: \<open>None\<close> is a loop that runs forever.
\<close>

partial_function (option) poll :: "env \<Rightarrow> client \<Rightarrow> int \<Rightarrow> int \<Rightarrow> int \<Rightarrow> world
    \<Rightarrow> ((error + json) \<times> world) option" where
  "poll e c start_time timeout interval w =
     (if now w - start_time < timeout then
        (case get_latest_message e c w of
           (Inl err, w1) \<Rightarrow> Some (Inl err, w1)
         | (Inr message, w1) \<Rightarrow>
             if truthy message then Some (Inr message, w1)
             else poll e c start_time timeout interval (sleep interval w1))
      else Some (Inl MessageTimeoutError, w))"

declare poll.simps [code]

definition wait_for_message :: "env \<Rightarrow> client \<Rightarrow> int \<Rightarrow> int \<Rightarrow> world
    \<Rightarrow> ((error + json) \<times> world) option" where
  "wait_for_message e c timeout interval w = poll e c (now w) timeout interval w"

definition delete_account :: "env \<Rightarrow> client \<Rightarrow> world \<Rightarrow> (error + client) \<times> world" where
  "delete_account e c w =
     (if \<not> truthy (account_id c) then (Inr c, w)
      else
        (case request e DELETE (Account (account_id c)) None w of
           (Inl err, w1) \<Rightarrow> (Inl err, w1)
         | (Inr r, w1) \<Rightarrow> (Inr (c\<lparr>account_id := JNull, address := None\<rparr>), w1)))"

definition close_session :: "world \<Rightarrow> world" where
  "close_session w = w\<lparr>sessions_closed := Suc (sessions_closed w)\<rparr>"

section \<open>The endpoint \<open>POST /api/wait_for_message\<close>\<close>

text \<open>\<open>int(x)\<close> for a decoded JSON value.\<close>

fun py_int :: "env \<Rightarrow> json \<Rightarrow> error + int" where
  "py_int e (JNum n) = Inr n"
| "py_int e (JBool b) = Inr (if b then 1 else 0)"
| "py_int e (JStr s) = (case int_of_str e s of None \<Rightarrow> Inl ValueError | Some n \<Rightarrow> Inr n)"
| "py_int e _ = Inl TypeError"

text \<open>
  The body of a response: \<open>jsonify({"error": ...})\<close> or \<open>jsonify(message)\<close>; the error text is
  not modelled.
\<close>

datatype http_body = ErrorBody | MessageBody json

text \<open>
  The handler, given the process-wide \<open>MAILTM_API_KEY\<close> (\<open>None\<close> when the variable is not set)
  and the value \<open>data\<close> that \<open>request.get_json()\<close> returned. The result is the pair of body and
  status that the handler returns, or the exception that leaves it; the \<open>finally\<close> clause closes
  the session on every path through the \<open>try\<close> block.
\<close>

definition api_wait_for_message :: "env \<Rightarrow> string option \<Rightarrow> json \<Rightarrow> world
    \<Rightarrow> ((error + http_body \<times> nat) \<times> world) option" where
  "api_wait_for_message e MAILTM_API_KEY data w =
     (case MAILTM_API_KEY of
        None \<Rightarrow> Some (Inr (ErrorBody, 500), w)
      | Some key \<Rightarrow>
     if key = [] then Some (Inr (ErrorBody, 500), w)
     else if \<not> truthy data then Some (Inr (ErrorBody, 400), w)
     else
       (case contains data ''accountId'' of
          Inl err \<Rightarrow> Some (Inl err, w)
        | Inr has_account \<Rightarrow>
       if \<not> has_account then Some (Inr (ErrorBody, 400), w)
       else
       (case contains data ''mailboxId'' of
          Inl err \<Rightarrow> Some (Inl err, w)
        | Inr has_mailbox \<Rightarrow>
       if \<not> has_mailbox then Some (Inr (ErrorBody, 400), w)
       else
       (case getitem data ''accountId'' of
          Inl err \<Rightarrow> Some (Inl err, w)
        | Inr aid \<Rightarrow>
       (case getitem data ''mailboxId'' of
          Inl err \<Rightarrow> Some (Inl err, w)
        | Inr mid \<Rightarrow>
       (case dict_get data ''timeout'' (JNum 60) of
          Inl err \<Rightarrow> Some (Inl err, w)
        | Inr timeout \<Rightarrow>
       (case dict_get data ''interval'' (JNum 5) of
          Inl err \<Rightarrow> Some (Inl err, w)
        | Inr interval \<Rightarrow>
       (case MailTmClient key of
          Inl err \<Rightarrow> Some (Inl err, w)
        | Inr client0 \<Rightarrow>
       (case py_int e timeout of
          Inl err \<Rightarrow> Some (Inl err, close_session w)
        | Inr t \<Rightarrow>
       (case py_int e interval of
          Inl err \<Rightarrow> Some (Inl err, close_session w)
        | Inr i \<Rightarrow>
       (case wait_for_message e (client0\<lparr>account_id := aid, mailbox_id := mid\<rparr>) t i w of
          None \<Rightarrow> None
        | Some (Inr message, w1) \<Rightarrow> Some (Inr (MessageBody message, 200), close_session w1)
        | Some (Inl err, w1) \<Rightarrow>
            if err = MessageTimeoutError then Some (Inr (ErrorBody, 408), close_session w1)
            else if is_MailTmError err then Some (Inr (ErrorBody, 500), close_session w1)
            else Some (Inl err, close_session w1))))))))))))"

text \<open>
  The status the HTTP caller sees: the one the handler returned, and 500 (Quart's answer to an
  exception that no handler caught) when an exception left the handler.
\<close>

definition http_status :: "error + http_body \<times> nat \<Rightarrow> nat" where
  "http_status r = (case r of Inl err \<Rightarrow> 500 | Inr (b, s) \<Rightarrow> s)"

section \<open>Notions used in the statements\<close>

text \<open>
  The request by which \<open>get_latest_message\<close> fetches the messages of the client's mailbox.
\<close>

definition fetch :: "client \<Rightarrow> http_request" where
  "fetch c = Request GET (Messages (account_id c) (mailbox_id c)) None"

text \<open>
  The mailbox of the client stays empty: both identifiers are set, every fetch is answered with
  the empty list, and the calls take no time on the clock.
\<close>

definition always_empty :: "env \<Rightarrow> client \<Rightarrow> bool" where
  "always_empty e c \<longleftrightarrow>
     truthy (account_id c) \<and> truthy (mailbox_id c) \<and>
     (\<forall>k. upstream e k (fetch c) = Body (JList [])) \<and>
     (\<forall>k. latency e k = 0)"

text \<open>
  The number of intervals that cover a timeout, rounded up.
\<close>

definition polls_needed :: "int \<Rightarrow> int \<Rightarrow> nat" where
  "polls_needed timeout interval = nat ((timeout + interval - 1) div interval)"

text \<open>
  The user name spelt by the \<open>n\<close> draws of the random source from position \<open>p\<close> on.
\<close>

definition drawn :: "env \<Rightarrow> nat \<Rightarrow> nat \<Rightarrow> string" where
  "drawn e p n = map (\<lambda>i. letters ! (draws e i mod length letters)) [p..<p + n]"

text \<open>
  The request that \<open>_create_account\<close> sends for an address and a password.
\<close>

definition post_account :: "string \<Rightarrow> string \<Rightarrow> http_request" where
  "post_account addr pw =
     Request POST Accounts (Some (JObj [(''address'', JStr addr), (''password'', JStr pw)]))"

text \<open>
  The address that an attempt generates when it starts in world \<open>w\<close>, and the world it
  leaves behind: ten more draws made and the creation request sent.
\<close>

definition attempt_address :: "env \<Rightarrow> string \<Rightarrow> world \<Rightarrow> string" where
  "attempt_address e domain w = drawn e (rng_pos w) 10 @ ''@'' @ domain"

definition after_post :: "env \<Rightarrow> string \<Rightarrow> string \<Rightarrow> world \<Rightarrow> world" where
  "after_post e domain pw w =
     w\<lparr>rng_pos := rng_pos w + 10,
       calls := calls w @ [post_account (attempt_address e domain w) pw],
       now := now w + int (latency e (length (calls w)))\<rparr>"

text \<open>
  The addresses and the requests of \<open>n\<close> attempts in a row, the first of which draws from
  position \<open>p\<close>.
\<close>

definition attempt_addresses :: "env \<Rightarrow> string \<Rightarrow> nat \<Rightarrow> nat \<Rightarrow> string list" where
  "attempt_addresses e domain p n = map (\<lambda>j. drawn e (p + 10 * j) 10 @ ''@'' @ domain) [0..<n]"

definition attempt_requests :: "env \<Rightarrow> string \<Rightarrow> string \<Rightarrow> nat \<Rightarrow> nat \<Rightarrow> http_request list" where
  "attempt_requests e domain pw p n =
     map (\<lambda>j. post_account (drawn e (p + 10 * j) 10 @ ''@'' @ domain) pw) [0..<n]"

text \<open>
  A call to the provider fails: \<open>_request\<close> turns the outcome into a \<open>MailTmError\<close>.
\<close>

definition failed :: "outcome \<Rightarrow> bool" where
  "failed r \<longleftrightarrow> r = HTTPStatusError \<or> r = RequestError"

text \<open>
  A mailbox entry that is a JSON object and whose path is not \<open>"INBOX"\<close>.
\<close>

fun other_mailbox :: "json \<Rightarrow> bool" where
  "other_mailbox (JObj ikvs) = (map_of ikvs ''path'' \<noteq> Some (JStr ''INBOX''))"
| "other_mailbox _ = False"

text \<open>
  An answer to a creation request that carries an account id and a mailbox list (absent counts
  as empty) of JSON objects, none of which has the path \<open>"INBOX"\<close>.
\<close>

fun inboxless :: "outcome \<Rightarrow> bool" where
  "inboxless (Body (JObj kvs)) =
     (map_of kvs ''id'' \<noteq> None \<and>
      (case map_of kvs ''mailboxes'' of
         None \<Rightarrow> True
       | Some (JList mbs) \<Rightarrow> list_all other_mailbox mbs
       | Some _ \<Rightarrow> False))"
| "inboxless _ = False"

text \<open>
  The pattern \<open>^[a-z0-9]{10}@<domain>$\<close>: ten characters, each a lower-case letter or a digit
  (by character code), then \<open>@\<close> and the domain.
\<close>

definition lower_alnum :: "char \<Rightarrow> bool" where
  "lower_alnum c \<longleftrightarrow>
     (97 \<le> (of_char c :: nat) \<and> (of_char c :: nat) \<le> 122) \<or>
     (48 \<le> (of_char c :: nat) \<and> (of_char c :: nat) \<le> 57)"

definition matches_address :: "string \<Rightarrow> string \<Rightarrow> bool" where
  "matches_address domain a \<longleftrightarrow>
     length (take 10 a) = 10 \<and> list_all lower_alnum (take 10 a) \<and> drop 10 a = ''@'' @ domain"

text \<open>
  A field of the request body with its default, as \<open>data.get(key, default)\<close> reads it.
\<close>

definition requested :: "(string \<times> json) list \<Rightarrow> string \<Rightarrow> json \<Rightarrow> json" where
  "requested kvs key dflt = (case map_of kvs key of None \<Rightarrow> dflt | Some v \<Rightarrow> v)"

subsection \<open>Concrete runs\<close>

definition world0 :: world where
  "world0 = \<lparr>calls = [], sleeps = [], now = 0, rng_pos = 0, sessions_closed = 0\<rparr>"

text \<open>
  Two random sources: one that counts \<open>0, 1, 2, \<dots>\<close>, so that the first user name is
  \<open>abcdefghij\<close>, and one that always draws 0, so that every user name is \<open>aaaaaaaaaa\<close>.
\<close>

definition counting :: "nat \<Rightarrow> nat" where
  "counting n = n"

definition repeating :: "nat \<Rightarrow> nat" where
  "repeating n = 0"

text \<open>A provider that gives every request the same answer, at once, over the counting source.\<close>

definition provider :: "outcome \<Rightarrow> env" where
  "provider r =
     \<lparr>upstream = (\<lambda>k req. r), latency = (\<lambda>k. 0), draws = counting, int_of_str = (\<lambda>s. None)\<rparr>"

text \<open>
  Three answers to a creation request: an account with a trash folder and an inbox, one whose
  identifiers are empty strings, and one without an inbox.
\<close>

definition good_account :: json where
  "good_account =
     JObj [(''id'', JStr ''a1''),
           (''mailboxes'', JList [JObj [(''path'', JStr ''Trash''), (''id'', JStr ''m0'')],
                                  JObj [(''path'', JStr ''INBOX''), (''id'', JStr ''m1'')]])]"

definition blank_account :: json where
  "blank_account =
     JObj [(''id'', JStr []),
           (''mailboxes'', JList [JObj [(''path'', JStr ''INBOX''), (''id'', JStr [])]])]"

definition boxless_account :: json where
  "boxless_account =
     JObj [(''id'', JStr ''a1''),
           (''mailboxes'', JList [JObj [(''path'', JStr ''Trash''), (''id'', JStr ''m0'')]])]"

text \<open>
  A provider that fails on its first two calls and then answers with \<open>good_account\<close>, over a
  random source \<open>d\<close>.
\<close>

definition flaky :: "(nat \<Rightarrow> nat) \<Rightarrow> env" where
  "flaky d =
     \<lparr>upstream = (\<lambda>k req. if k < 2 then HTTPStatusError else Body good_account),
      latency = (\<lambda>k. 0), draws = d, int_of_str = (\<lambda>s. None)\<rparr>"

text \<open>
  A provider whose first answer is \<open>boxless_account\<close> and every later one \<open>good_account\<close>.
\<close>

definition late_inbox :: env where
  "late_inbox =
     \<lparr>upstream = (\<lambda>k req. if k < 1 then Body boxless_account else Body good_account),
      latency = (\<lambda>k. 0), draws = counting, int_of_str = (\<lambda>s. None)\<rparr>"

definition known_client :: client where
  "known_client =
     \<lparr>address = Some ''u@vvvcx.me'', password = Some ''thisispassword'',
      account_id = JStr ''a1'', mailbox_id = JStr ''m1''\<rparr>"

definition fresh_client :: client where
  "fresh_client = \<lparr>address = None, password = None, account_id = JNull, mailbox_id = JNull\<rparr>"

text \<open>
  The client that the endpoint builds for the identifiers \<open>a1\<close> and \<open>m1\<close>, and the request
  body that names them.
\<close>

definition caller :: client where
  "caller = fresh_client\<lparr>account_id := JStr ''a1'', mailbox_id := JStr ''m1''\<rparr>"

definition wait_body :: "(string \<times> json) list" where
  "wait_body = [(''accountId'', JStr ''a1''), (''mailboxId'', JStr ''m1'')]"

definition hello :: json where
  "hello = JObj [(''intro'', JStr ''hello'')]"

section \<open>Polling: \<open>get_latest_message\<close> and \<open>wait_for_message\<close>\<close>

lemma get_latest_message_empty:
  assumes "always_empty e c"
  shows "get_latest_message e c w = (Inr JNull, w\<lparr>calls := calls w @ [fetch c]\<rparr>)"
  using assms by (simp add: always_empty_def get_latest_message_def request_def Let_def fetch_def)

lemma poll_expired:
  "timeout \<le> now w - start_time \<Longrightarrow>
   poll e c start_time timeout interval w = Some (Inl MessageTimeoutError, w)"
  by (subst poll.simps) simp

lemma poll_found:
  "now w - start_time < timeout \<Longrightarrow> get_latest_message e c w = (Inr m, w1) \<Longrightarrow> truthy m \<Longrightarrow>
   poll e c start_time timeout interval w = Some (Inr m, w1)"
  by (subst poll.simps) simp

lemma poll_raises:
  "now w - start_time < timeout \<Longrightarrow> get_latest_message e c w = (Inl err, w1) \<Longrightarrow>
   poll e c start_time timeout interval w = Some (Inl err, w1)"
  by (subst poll.simps) simp

lemma poll_empty_step:
  assumes "always_empty e c" and "now w - start_time < timeout"
  shows "poll e c start_time timeout interval w =
     poll e c start_time timeout interval (sleep interval (w\<lparr>calls := calls w @ [fetch c]\<rparr>))"
  using assms by (subst poll.simps) (simp add: get_latest_message_empty)

text \<open>
  With an empty mailbox and a sleep that does not advance the clock, a poll that returns has
  started at or after its deadline: before the deadline it runs forever.
\<close>

lemma poll_stuck:
  assumes res: "poll e c start_time timeout interval w = Some y"
  shows "always_empty e c \<longrightarrow> interval \<le> 0 \<longrightarrow> timeout \<le> now w - start_time"
proof (rule poll.raw_induct
    [where P = "\<lambda>e c start_time timeout interval w y.
        always_empty e c \<longrightarrow> interval \<le> 0 \<longrightarrow> timeout \<le> now w - start_time", OF _ res])
  fix f e c start_time timeout interval w and y :: "(error + json) \<times> world"
  assume IH: "\<And>e c start_time timeout interval w y. f e c start_time timeout interval w = Some y \<Longrightarrow>
        always_empty e c \<longrightarrow> interval \<le> 0 \<longrightarrow> timeout \<le> now w - start_time"
    and step: "(if now w - start_time < timeout
      then case get_latest_message e c w of
           (Inl err, w1) \<Rightarrow> Some (Inl err, w1)
           | (Inr message, w1) \<Rightarrow>
               if truthy message then Some (Inr message, w1)
               else f e c start_time timeout interval (sleep interval w1)
      else Some (Inl MessageTimeoutError, w)) = Some y"
  show "always_empty e c \<longrightarrow> interval \<le> 0 \<longrightarrow> timeout \<le> now w - start_time"
  proof (intro impI)
    assume ae: "always_empty e c" and iv: "interval \<le> 0"
    show "timeout \<le> now w - start_time"
    proof (rule ccontr)
      assume "\<not> timeout \<le> now w - start_time"
      then have lt: "now w - start_time < timeout" by simp
      let ?w1 = "w\<lparr>calls := calls w @ [fetch c]\<rparr>"
      have g: "get_latest_message e c w = (Inr JNull, ?w1)"
        using ae by (rule get_latest_message_empty)
      from step lt g have "f e c start_time timeout interval (sleep interval ?w1) = Some y"
        by simp
      from IH[OF this] ae iv
      have "timeout \<le> now (sleep interval ?w1) - start_time" by blast
      moreover have "now (sleep interval ?w1) = now w"
        using iv by (simp add: sleep_def)
      ultimately show False using lt by simp
    qed
  qed
qed

lemma poll_times_out:
  assumes ae: "always_empty e c" and iv: "0 < interval"
  shows "timeout \<le> now w - start_time + int k * interval \<Longrightarrow>
     (k = 0 \<or> now w - start_time + (int k - 1) * interval < timeout) \<Longrightarrow>
     poll e c start_time timeout interval w =
       Some (Inl MessageTimeoutError,
             w\<lparr>calls := calls w @ replicate k (fetch c),
               sleeps := sleeps w @ replicate k interval,
               now := now w + int k * interval\<rparr>)"
proof (induction k arbitrary: w)
  case 0
  then show ?case by (simp add: poll_expired)
next
  case (Suc k)
  let ?w2 = "sleep interval (w\<lparr>calls := calls w @ [fetch c]\<rparr>)"
  have now2: "now ?w2 = now w + interval" using iv by (simp add: sleep_def)
  from Suc.prems(2) have a: "now w - start_time + int k * interval < timeout" by simp
  have "0 \<le> int k * interval" using iv by simp
  with a have lt: "now w - start_time < timeout" by linarith
  have b: "timeout \<le> now ?w2 - start_time + int k * interval"
    using Suc.prems(1) by (simp add: now2 algebra_simps)
  have c: "k = 0 \<or> now ?w2 - start_time + (int k - 1) * interval < timeout"
    using a by (simp add: now2 algebra_simps)
  have "poll e c start_time timeout interval w = poll e c start_time timeout interval ?w2"
    using ae lt by (rule poll_empty_step)
  also have "\<dots> = Some (Inl MessageTimeoutError,
             ?w2\<lparr>calls := calls ?w2 @ replicate k (fetch c),
               sleeps := sleeps ?w2 @ replicate k interval,
               now := now ?w2 + int k * interval\<rparr>)"
    using b c by (rule Suc.IH)
  also have "?w2\<lparr>calls := calls ?w2 @ replicate k (fetch c),
               sleeps := sleeps ?w2 @ replicate k interval,
               now := now ?w2 + int k * interval\<rparr> =
       w\<lparr>calls := calls w @ replicate (Suc k) (fetch c),
               sleeps := sleeps w @ replicate (Suc k) interval,
               now := now w + int (Suc k) * interval\<rparr>"
    using iv by (simp add: sleep_def algebra_simps)
  finally show ?case .
qed

lemma polls_bounds:
  fixes timeout interval :: int
  assumes "0 \<le> timeout" "0 < interval"
  defines "q \<equiv> (timeout + interval - 1) div interval"
  shows "0 \<le> q" "timeout \<le> q * interval" "q * interval < timeout + interval"
proof -
  have eq: "q * interval + (timeout + interval - 1) mod interval = timeout + interval - 1"
    unfolding q_def by simp
  have r: "0 \<le> (timeout + interval - 1) mod interval" "(timeout + interval - 1) mod interval < interval"
    using assms(2) by simp_all
  show "timeout \<le> q * interval" using eq r by linarith
  show "q * interval < timeout + interval" using eq r by linarith
  show "0 \<le> q" unfolding q_def using assms by (simp add: pos_imp_zdiv_nonneg_iff)
qed

lemma always_empty_provider: "always_empty (provider (Body (JList []))) known_client"
  by (simp add: always_empty_def provider_def known_client_def fetch_def)

text \<open>
  Claim C3, as amended. When every fetch returns the empty list, fetches take no time and each
  sleep advances the clock by the interval, then for every timeout that is not negative and
  every positive interval \<open>wait_for_message\<close> raises \<open>MessageTimeoutError\<close> after
  \<open>polls_needed timeout interval\<close> rounds of one fetch and one sleep, and the time elapsed at
  the raise lies in the half-open range from the timeout to the timeout plus the interval.
\<close>

theorem wait_for_message_times_out:
  assumes "always_empty e c" and "0 \<le> timeout" and "0 < interval"
  shows "wait_for_message e c timeout interval w =
       Some (Inl MessageTimeoutError,
             w\<lparr>calls := calls w @ replicate (polls_needed timeout interval) (fetch c),
               sleeps := sleeps w @ replicate (polls_needed timeout interval) interval,
               now := now w + int (polls_needed timeout interval) * interval\<rparr>)
     \<and> timeout \<le> int (polls_needed timeout interval) * interval
     \<and> int (polls_needed timeout interval) * interval < timeout + interval"
proof -
  let ?q = "(timeout + interval - 1) div interval"
  note q = polls_bounds[OF assms(2,3)]
  have k: "int (polls_needed timeout interval) = ?q"
    using q(1) by (simp add: polls_needed_def)
  have "poll e c (now w) timeout interval w =
       Some (Inl MessageTimeoutError,
             w\<lparr>calls := calls w @ replicate (polls_needed timeout interval) (fetch c),
               sleeps := sleeps w @ replicate (polls_needed timeout interval) interval,
               now := now w + int (polls_needed timeout interval) * interval\<rparr>)"
  proof (rule poll_times_out[OF assms(1,3)])
    show "timeout \<le> now w - now w + int (polls_needed timeout interval) * interval"
      using q(2) k by simp
    show "polls_needed timeout interval = 0
        \<or> now w - now w + (int (polls_needed timeout interval) - 1) * interval < timeout"
      using q(3) k by (simp add: algebra_simps)
  qed
  then show ?thesis using q k by (simp add: wait_for_message_def)
qed

theorem wait_for_message_times_out_witness:
  "always_empty (provider (Body (JList []))) known_client \<and>
   wait_for_message (provider (Body (JList []))) known_client 10 4 world0 =
     Some (Inl MessageTimeoutError,
           world0\<lparr>calls := replicate 3 (fetch known_client), sleeps := [4, 4, 4], now := 12\<rparr>)"
proof -
  have ae: "always_empty (provider (Body (JList []))) known_client"
    by (simp add: always_empty_def provider_def known_client_def fetch_def)
  have n: "polls_needed 10 4 = 3" by (simp add: polls_needed_def)
  from wait_for_message_times_out[OF ae, of 10 4 world0] ae
  show ?thesis by (simp add: n world0_def eval_nat_numeral)
qed

text \<open>
  The claim as stated, for every timeout and interval, fails on both sides: with timeout \<open>-5\<close>
  and interval \<open>2\<close> the error is raised after no time at all, which is outside the range from
  \<open>-5\<close> to \<open>-3\<close>; with timeout \<open>10\<close> and interval \<open>0\<close> the clock never advances and the loop
  never ends.
\<close>

theorem wait_for_message_times_out_counterexample:
  "always_empty (provider (Body (JList []))) known_client \<and>
   wait_for_message (provider (Body (JList []))) known_client (- 5) 2 world0 =
     Some (Inl MessageTimeoutError, world0) \<and>
   \<not> (- 5 \<le> now world0 - now world0 \<and> now world0 - now world0 < - 5 + 2) \<and>
   wait_for_message (provider (Body (JList []))) known_client 10 0 world0 = None"
proof -
  have "wait_for_message (provider (Body (JList []))) known_client 10 0 world0 = None"
  proof (cases "wait_for_message (provider (Body (JList []))) known_client 10 0 world0")
    case (Some y)
    then have "poll (provider (Body (JList []))) known_client (now world0) 10 0 world0 = Some y"
      by (simp add: wait_for_message_def)
    from poll_stuck[OF this] always_empty_provider show ?thesis by simp
  qed simp
  then show ?thesis
    using always_empty_provider by (simp add: wait_for_message_def poll_expired world0_def)
qed

text \<open>
  Claim C4. If the first fetch of the newest message yields a message, \<open>wait_for_message\<close>
  returns that message with no sleep and exactly one request to the provider. That there is a
  first fetch means that the timeout is positive; a message is a value that Python takes as
  true, as every JSON object with at least one field is.
\<close>

theorem wait_for_message_immediate:
  assumes "0 < timeout" and "get_latest_message e c w = (Inr m, w1)" and "truthy m"
  shows "wait_for_message e c timeout interval w = Some (Inr m, w1)
     \<and> sleeps w1 = sleeps w \<and> calls w1 = calls w @ [fetch c]"
proof -
  have "poll e c (now w) timeout interval w = Some (Inr m, w1)"
    using assms by (subst poll.simps) simp
  moreover have "sleeps w1 = sleeps w \<and> calls w1 = calls w @ [fetch c]"
    using assms(2,3)
    by (auto simp: get_latest_message_def request_def Let_def fetch_def
        split: if_splits outcome.splits sum.splits)
  ultimately show ?thesis by (simp add: wait_for_message_def)
qed

theorem wait_for_message_immediate_witness:
  "wait_for_message (provider (Body (JList [hello]))) known_client 60 5 world0 =
     Some (Inr hello, world0\<lparr>calls := [fetch known_client]\<rparr>)"
proof -
  have g: "get_latest_message (provider (Body (JList [hello]))) known_client world0 =
      (Inr hello, world0\<lparr>calls := [fetch known_client]\<rparr>)"
    by (simp add: get_latest_message_def request_def provider_def known_client_def world0_def
        hello_def fetch_def)
  have t: "truthy hello" by (simp add: hello_def)
  from wait_for_message_immediate[OF _ g t, of 60 5] show ?thesis by simp
qed

text \<open>
  Claim C8, as amended. If the account identifier or the mailbox identifier of the client is
  unset, \<open>get_latest_message\<close> raises \<open>MailTmError\<close> before any request is made, and so does
  \<open>wait_for_message\<close> when its timeout is positive; when the timeout is not positive,
  \<open>wait_for_message\<close> raises \<open>MessageTimeoutError\<close> instead, also before any request.
\<close>

theorem unset_identifiers:
  assumes "\<not> truthy (account_id c) \<or> \<not> truthy (mailbox_id c)"
  shows "get_latest_message e c w = (Inl MailTmError, w)
     \<and> (0 < timeout \<longrightarrow> wait_for_message e c timeout interval w = Some (Inl MailTmError, w))
     \<and> (timeout \<le> 0 \<longrightarrow> wait_for_message e c timeout interval w = Some (Inl MessageTimeoutError, w))"
proof -
  have g: "get_latest_message e c w = (Inl MailTmError, w)"
    using assms by (auto simp: get_latest_message_def)
  show ?thesis
    unfolding wait_for_message_def by (subst poll.simps, subst (2) poll.simps) (simp add: g)
qed

theorem unset_identifiers_witness:
  "\<not> truthy (account_id fresh_client) \<and>
   get_latest_message (provider (Body (JList [hello]))) fresh_client world0 = (Inl MailTmError, world0) \<and>
   wait_for_message (provider (Body (JList [hello]))) fresh_client 60 5 world0 = Some (Inl MailTmError, world0)"
proof -
  have u: "\<not> truthy (account_id fresh_client) \<or> \<not> truthy (mailbox_id fresh_client)"
    by (simp add: fresh_client_def)
  from unset_identifiers[OF u, of "provider (Body (JList [hello]))" world0 60 5]
  show ?thesis by (simp add: fresh_client_def)
qed

text \<open>
  The claim as stated fails for \<open>wait_for_message\<close> at timeout \<open>0\<close>: the error of a client
  without identifiers is then the timeout, not the configuration error.
\<close>

theorem unset_identifiers_counterexample:
  "\<not> truthy (account_id fresh_client) \<and>
   wait_for_message (provider (Body (JList [hello]))) fresh_client 0 5 world0
     = Some (Inl MessageTimeoutError, world0)"
  by (simp add: fresh_client_def wait_for_message_def poll_expired)

text \<open>
  Claim C10. For every timeout that is not positive, \<open>wait_for_message\<close> raises
  \<open>MessageTimeoutError\<close> at once, with no fetch and no sleep (the world is unchanged), also when
  a message is waiting in the mailbox.
\<close>

theorem deadline_precedes_fetch:
  assumes "timeout \<le> 0"
  shows "wait_for_message e c timeout interval w = Some (Inl MessageTimeoutError, w)"
  using assms by (simp add: wait_for_message_def poll_expired)

theorem deadline_precedes_fetch_witness:
  "get_latest_message (provider (Body (JList [hello]))) known_client world0 =
      (Inr hello, world0\<lparr>calls := [fetch known_client]\<rparr>) \<and>
   wait_for_message (provider (Body (JList [hello]))) known_client 0 5 world0 =
      Some (Inl MessageTimeoutError, world0)"
proof -
  have "get_latest_message (provider (Body (JList [hello]))) known_client world0 =
      (Inr hello, world0\<lparr>calls := [fetch known_client]\<rparr>)"
    by (simp add: get_latest_message_def request_def provider_def known_client_def world0_def
        hello_def fetch_def)
  with deadline_precedes_fetch[of 0 "provider (Body (JList [hello]))" known_client 5 world0]
  show ?thesis by simp
qed

section \<open>Deleting an account\<close>

text \<open>
  Claim C9. A successful \<open>delete_account\<close> on a client whose account identifier is set sends
  exactly one request, a \<open>DELETE\<close> for that account, and leaves \<open>account_id\<close> and \<open>address\<close> at
  \<open>None\<close> and \<open>mailbox_id\<close> and \<open>password\<close> as they were.
\<close>

theorem delete_account_clears:
  assumes "truthy (account_id c)" and "delete_account e c w = (Inr c', w')"
  shows "calls w' = calls w @ [Request DELETE (Account (account_id c)) None]
     \<and> account_id c' = JNull \<and> address c' = None
     \<and> mailbox_id c' = mailbox_id c \<and> password c' = password c"
  using assms
  by (auto simp: delete_account_def request_def Let_def split: outcome.splits)

theorem delete_account_clears_witness:
  "truthy (account_id known_client) \<and>
   delete_account (provider NoContent) known_client world0 =
     (Inr (known_client\<lparr>account_id := JNull, address := None\<rparr>),
      world0\<lparr>calls := [Request DELETE (Account (JStr ''a1'')) None]\<rparr>) \<and>
   mailbox_id (known_client\<lparr>account_id := JNull, address := None\<rparr>) = JStr ''m1'' \<and>
   password (known_client\<lparr>account_id := JNull, address := None\<rparr>) = Some ''thisispassword''"
proof -
  have t: "truthy (account_id known_client)" by (simp add: known_client_def)
  have d: "delete_account (provider NoContent) known_client world0 =
     (Inr (known_client\<lparr>account_id := JNull, address := None\<rparr>),
      world0\<lparr>calls := [Request DELETE (Account (JStr ''a1'')) None]\<rparr>)"
    by (simp add: delete_account_def request_def provider_def known_client_def world0_def)
  from delete_account_clears[OF t d] t d show ?thesis by (simp add: known_client_def)
qed

section \<open>Creating an account\<close>

subsection \<open>The generated address\<close>

lemma generate_random_username_drawn:
  "generate_random_username e n w = (drawn e (rng_pos w) n, w\<lparr>rng_pos := rng_pos w + n\<rparr>)"
proof (induction n arbitrary: w)
  case 0
  then show ?case by (simp add: drawn_def)
next
  case (Suc n)
  have "[rng_pos w..<rng_pos w + Suc n] = rng_pos w # [Suc (rng_pos w)..<Suc (rng_pos w) + n]"
    by (simp add: upt_rec)
  then show ?case
    by (simp add: Suc.IH random_choice_def drawn_def)
qed

lemma letters_lower_alnum: "list_all lower_alnum letters"
  by (simp add: letters_def lower_alnum_def)

lemma drawn_lower_alnum: "list_all lower_alnum (drawn e p n)"
proof -
  have "letters ! (i mod length letters) \<in> set letters" for i
    by (rule nth_mem) (simp add: letters_def)
  then show ?thesis
    using letters_lower_alnum by (auto simp: drawn_def list_all_iff)
qed

lemma length_drawn: "length (drawn e p n) = n"
  by (simp add: drawn_def)

lemma matches_attempt_address: "matches_address domain (attempt_address e domain w)"
  by (simp add: matches_address_def attempt_address_def length_drawn drawn_lower_alnum)

subsection \<open>One attempt\<close>

lemma try_create_unfold:
  "try_create e domain pw inst w =
     (case upstream e (length (calls w)) (post_account (attempt_address e domain w) pw) of
        HTTPStatusError \<Rightarrow> (Some MailTmError, inst, after_post e domain pw w)
      | RequestError \<Rightarrow> (Some MailTmError, inst, after_post e domain pw w)
      | NoContent \<Rightarrow> (Some TypeError, inst, after_post e domain pw w)
      | Undecodable \<Rightarrow> (Some ValueError, inst, after_post e domain pw w)
      | Body account_data \<Rightarrow>
          (case getitem account_data ''id'' of
             Inl err \<Rightarrow> (Some err, inst, after_post e domain pw w)
           | Inr aid \<Rightarrow>
               (case resolve_inbox account_data
                       (inst\<lparr>account_id := aid, address := Some (attempt_address e domain w),
                              password := Some pw\<rparr>) of
                  (r, inst1) \<Rightarrow> (r, inst1, after_post e domain pw w))))"
  by (simp add: try_create_def generate_random_username_drawn create_account_def request_def
      Let_def post_account_def attempt_address_def after_post_def
      split: outcome.splits sum.splits prod.splits)

lemma try_create_failed:
  "failed (upstream e (length (calls w)) (post_account (attempt_address e domain w) pw)) \<Longrightarrow>
   try_create e domain pw inst w = (Some MailTmError, inst, after_post e domain pw w)"
  by (auto simp: try_create_unfold failed_def)

lemma find_inbox_Some:
  "find_inbox mbs = Inr (Some mb) \<Longrightarrow>
   \<exists>ikvs. mb = JObj ikvs \<and> mb \<in> set mbs \<and> map_of ikvs ''path'' = Some (JStr ''INBOX'')"
proof (induction mbs)
  case Nil
  then show ?case by simp
next
  case (Cons a mbs)
  then show ?case
    by (cases a) (auto split: if_splits option.splits)
qed

lemma find_inbox_other:
  "list_all other_mailbox mbs \<Longrightarrow> find_inbox mbs = Inr None"
proof (induction mbs)
  case Nil
  then show ?case by simp
next
  case (Cons a mbs)
  then show ?case by (cases a) (auto split: option.splits)
qed

lemma resolve_inbox_None:
  assumes "resolve_inbox account_data inst = (None, inst1)"
  shows "\<exists>kvs mbs ikvs. account_data = JObj kvs \<and> map_of kvs ''mailboxes'' = Some (JList mbs)
     \<and> find_inbox mbs = Inr (Some (JObj ikvs)) \<and> map_of ikvs ''id'' = Some (mailbox_id inst1)
     \<and> inst1 = inst\<lparr>mailbox_id := mailbox_id inst1\<rparr>"
proof -
  obtain kvs where ad: "account_data = JObj kvs"
    using assms by (cases account_data) (auto simp: resolve_inbox_def)
  let ?mailboxes = "case map_of kvs ''mailboxes'' of None \<Rightarrow> JList [] | Some v \<Rightarrow> v"
  from assms ad obtain mbs inbox mid where it: "iterate ?mailboxes = Inr mbs"
    and fi: "find_inbox mbs = Inr (Some inbox)" and gi: "getitem inbox ''id'' = Inr mid"
    and i1: "inst1 = inst\<lparr>mailbox_id := mid\<rparr>"
    by (auto simp: resolve_inbox_def split: sum.splits option.splits if_splits)
  from find_inbox_Some[OF fi] obtain ikvs where ik: "inbox = JObj ikvs" "inbox \<in> set mbs" by auto
  have "\<exists>l. ?mailboxes = JList l"
  proof (cases ?mailboxes)
    case (JStr x)
    with it ik show ?thesis by auto
  next
    case (JObj x)
    with it ik show ?thesis by auto
  qed (use it in auto)
  then obtain l where l: "?mailboxes = JList l" by blast
  with it fi have "map_of kvs ''mailboxes'' = Some (JList mbs)"
    by (auto split: option.splits)
  moreover from gi ik have "map_of ikvs ''id'' = Some mid" by (auto split: option.splits)
  ultimately show ?thesis using ad fi ik i1 by auto
qed

lemma try_create_None:
  assumes "try_create e domain pw inst w = (None, inst1, w1)"
  shows "\<exists>kvs mbs ikvs.
       upstream e (length (calls w)) (post_account (attempt_address e domain w) pw) = Body (JObj kvs)
     \<and> map_of kvs ''id'' = Some (account_id inst1)
     \<and> map_of kvs ''mailboxes'' = Some (JList mbs)
     \<and> find_inbox mbs = Inr (Some (JObj ikvs))
     \<and> map_of ikvs ''id'' = Some (mailbox_id inst1)
     \<and> address inst1 = Some (attempt_address e domain w)
     \<and> password inst1 = Some pw
     \<and> w1 = after_post e domain pw w"
proof -
  from assms obtain account_data aid where
    up: "upstream e (length (calls w)) (post_account (attempt_address e domain w) pw) = Body account_data"
    and gi: "getitem account_data ''id'' = Inr aid"
    and ri: "resolve_inbox account_data
        (inst\<lparr>account_id := aid, address := Some (attempt_address e domain w), password := Some pw\<rparr>)
        = (None, inst1)"
    and w1: "w1 = after_post e domain pw w"
    by (auto simp: try_create_unfold split: outcome.splits sum.splits prod.splits)
  from resolve_inbox_None[OF ri] obtain kvs mbs ikvs where r:
    "account_data = JObj kvs" "map_of kvs ''mailboxes'' = Some (JList mbs)"
    "find_inbox mbs = Inr (Some (JObj ikvs))" "map_of ikvs ''id'' = Some (mailbox_id inst1)"
    "inst1 = inst\<lparr>account_id := aid, address := Some (attempt_address e domain w),
        password := Some pw\<rparr>\<lparr>mailbox_id := mailbox_id inst1\<rparr>"
    by blast
  have f: "account_id inst1 = aid" "address inst1 = Some (attempt_address e domain w)"
    "password inst1 = Some pw"
    by (subst r(5), simp)+
  from gi r(1) have "map_of kvs ''id'' = Some aid" by (auto split: option.splits)
  with up r f w1 show ?thesis by auto
qed

lemma try_create_good:
  assumes "upstream e (length (calls w)) (post_account (attempt_address e domain w) pw) = Body (JObj kvs)"
    and "map_of kvs ''id'' = Some aid"
    and "map_of kvs ''mailboxes'' = Some (JList mbs)"
    and "find_inbox mbs = Inr (Some (JObj ikvs))"
    and "map_of ikvs ''id'' = Some mid"
  shows "try_create e domain pw inst w =
     (None,
      inst\<lparr>account_id := aid, address := Some (attempt_address e domain w), password := Some pw,
           mailbox_id := mid\<rparr>,
      after_post e domain pw w)"
proof -
  from assms(5) have "ikvs \<noteq> []" by auto
  with assms show ?thesis
    by (simp add: try_create_unfold resolve_inbox_def)
qed

lemma try_create_boxless:
  assumes "upstream e (length (calls w)) (post_account (attempt_address e domain w) pw) = Body (JObj kvs)"
    and "map_of kvs ''id'' = Some aid"
    and "dict_get (JObj kvs) ''mailboxes'' (JList []) = Inr (JList mbs)"
    and "list_all other_mailbox mbs"
  shows "try_create e domain pw inst w =
     (Some MailTmError,
      inst\<lparr>account_id := aid, address := Some (attempt_address e domain w), password := Some pw\<rparr>,
      after_post e domain pw w)"
  using assms(1,2,3) find_inbox_other[OF assms(4)]
  by (simp add: try_create_unfold resolve_inbox_def)

subsection \<open>The retry loop\<close>

lemma create_loop_success:
  "attempt < max_retries \<Longrightarrow> try_create e domain pw inst w = (None, inst1, w1) \<Longrightarrow>
   create_loop e domain pw max_retries attempt inst w = (Inr inst1, w1)"
  by (subst create_loop.simps) simp

lemma create_loop_retry:
  "attempt < max_retries - 1 \<Longrightarrow> try_create e domain pw inst w = (Some err, inst1, w1) \<Longrightarrow>
   is_MailTmError err \<Longrightarrow>
   create_loop e domain pw max_retries attempt inst w =
     create_loop e domain pw max_retries (attempt + 1) inst1 (sleep 3 w1)"
  by (subst create_loop.simps) simp

lemma create_loop_last:
  "attempt = max_retries - 1 \<Longrightarrow> try_create e domain pw inst w = (Some err, inst1, w1) \<Longrightarrow>
   is_MailTmError err \<Longrightarrow>
   create_loop e domain pw max_retries attempt inst w = (Inl AccountCreationError, w1)"
  by (subst create_loop.simps) simp

lemma create_loop_Inr:
  "create_loop e domain pw max_retries attempt inst w = (Inr inst', w') \<Longrightarrow>
   \<exists>inst0 w0. try_create e domain pw inst0 w0 = (None, inst', w')"
proof (induction e domain pw max_retries attempt inst w rule: create_loop.induct)
  case (1 e domain pw max_retries attempt inst w)
  from "1.prems" have lt: "attempt < max_retries"
    by (subst (asm) create_loop.simps) (simp split: if_splits)
  obtain r inst1 w1 where t: "try_create e domain pw inst w = (r, inst1, w1)"
    by (cases "try_create e domain pw inst w") auto
  show ?case
  proof (cases r)
    case None
    with "1.prems" lt t show ?thesis
      by (subst (asm) create_loop.simps) auto
  next
    case (Some err)
    with "1.prems" lt t have m: "is_MailTmError err" and lt2: "attempt < max_retries - 1"
      and rec: "create_loop e domain pw max_retries (attempt + 1) inst1 (sleep 3 w1) = (Inr inst', w')"
      by (subst (asm) create_loop.simps, simp split: if_splits)+
    from "1.IH"[OF lt t[symmetric] _ _ m lt2 rec] Some show ?thesis by simp
  qed
qed

lemma create_loop_all_fail:
  assumes fails: "\<forall>k r. failed (upstream e k r)"
  shows "Suc n = nat (max_retries - attempt) \<Longrightarrow>
     \<exists>w'. create_loop e domain pw max_retries attempt inst w = (Inl AccountCreationError, w')
       \<and> calls w' = calls w @ attempt_requests e domain pw (rng_pos w) (Suc n)
       \<and> sleeps w' = sleeps w @ replicate n 3"
proof (induction n arbitrary: attempt w)
  case 0
  then have a: "attempt = max_retries - 1" by linarith
  have t: "try_create e domain pw inst w = (Some MailTmError, inst, after_post e domain pw w)"
    using fails by (simp add: try_create_failed)
  show ?case
    by (simp add: create_loop_last[OF a t] after_post_def attempt_requests_def attempt_address_def)
next
  case (Suc n)
  then have a: "attempt < max_retries - 1" by linarith
  have t: "try_create e domain pw inst w = (Some MailTmError, inst, after_post e domain pw w)"
    using fails by (simp add: try_create_failed)
  let ?w2 = "sleep 3 (after_post e domain pw w)"
  from Suc.prems have "Suc n = nat (max_retries - (attempt + 1))" by linarith
  from Suc.IH[OF this, of ?w2] obtain w' where
    r: "create_loop e domain pw max_retries (attempt + 1) inst ?w2 = (Inl AccountCreationError, w')"
    and c: "calls w' = calls ?w2 @ attempt_requests e domain pw (rng_pos ?w2) (Suc n)"
    and s: "sleeps w' = sleeps ?w2 @ replicate n 3"
    by blast
  have "attempt_requests e domain pw (rng_pos w) (Suc (Suc n)) =
      post_account (attempt_address e domain w) pw # attempt_requests e domain pw (rng_pos w + 10) (Suc n)"
    unfolding attempt_requests_def attempt_address_def
    by (subst map_upt_Suc) (simp add: add.assoc)
  with r c s show ?case
    by (simp add: create_loop_retry[OF a t] sleep_def after_post_def replicate_append_same)
qed

lemma third_attempt:
  assumes key: "api_key \<noteq> []" and mr: "3 \<le> max_retries"
    and f0: "\<forall>r. failed (upstream e (length (calls w)) r)"
    and f1: "\<forall>r. failed (upstream e (length (calls w) + 1) r)"
    and ok: "\<forall>r. upstream e (length (calls w) + 2) r = Body (JObj kvs)"
    and acct: "map_of kvs ''id'' = Some aid" "map_of kvs ''mailboxes'' = Some (JList mbs)"
      "find_inbox mbs = Inr (Some (JObj ikvs))" "map_of ikvs ''id'' = Some mid"
  shows "create_new_account e api_key domain pw max_retries w =
       (Inr \<lparr>address = Some (drawn e (rng_pos w + 20) 10 @ ''@'' @ domain), password = Some pw,
             account_id = aid, mailbox_id = mid\<rparr>,
        after_post e domain pw (sleep 3 (after_post e domain pw (sleep 3 (after_post e domain pw w)))))"
proof -
  let ?i = "\<lparr>address = None, password = None, account_id = JNull, mailbox_id = JNull\<rparr>"
  let ?w1 = "sleep 3 (after_post e domain pw w)"
  let ?w2 = "sleep 3 (after_post e domain pw ?w1)"
  have t0: "try_create e domain pw ?i w = (Some MailTmError, ?i, after_post e domain pw w)"
    using f0 by (simp add: try_create_failed)
  have l1: "length (calls ?w1) = length (calls w) + 1"
    by (simp add: sleep_def after_post_def)
  have t1: "try_create e domain pw ?i ?w1 = (Some MailTmError, ?i, after_post e domain pw ?w1)"
    using f1 by (simp add: try_create_failed l1)
  have l2: "length (calls ?w2) = length (calls w) + 2"
    by (simp add: sleep_def after_post_def)
  have r2: "rng_pos ?w2 = rng_pos w + 20"
    by (simp add: sleep_def after_post_def)
  have t2: "try_create e domain pw ?i ?w2 =
     (None, ?i\<lparr>account_id := aid, address := Some (attempt_address e domain ?w2), password := Some pw,
           mailbox_id := mid\<rparr>, after_post e domain pw ?w2)"
    using ok acct by (intro try_create_good) (simp_all add: l2)
  have "create_loop e domain pw max_retries 0 ?i w = create_loop e domain pw max_retries (0 + 1) ?i ?w1"
    by (rule create_loop_retry[OF _ t0]) (use mr in simp_all)
  also have "\<dots> = create_loop e domain pw max_retries (0 + 1 + 1) ?i ?w2"
    by (rule create_loop_retry[OF _ t1]) (use mr in simp_all)
  also have "\<dots> = (Inr (?i\<lparr>account_id := aid, address := Some (attempt_address e domain ?w2),
           password := Some pw, mailbox_id := mid\<rparr>), after_post e domain pw ?w2)"
    by (rule create_loop_success[OF _ t2]) (use mr in simp)
  finally show ?thesis
    using key by (simp add: create_new_account_def MailTmClient_def attempt_address_def r2)
qed

lemma three_attempts_world:
  "calls (after_post e domain pw (sleep 3 (after_post e domain pw (sleep 3 (after_post e domain pw w)))))
     = calls w @ attempt_requests e domain pw (rng_pos w) 3"
  "sleeps (after_post e domain pw (sleep 3 (after_post e domain pw (sleep 3 (after_post e domain pw w)))))
     = sleeps w @ [3, 3]"
  by (simp_all add: after_post_def sleep_def attempt_requests_def attempt_address_def
      eval_nat_numeral add.assoc)

lemma flaky_fails: "k < 2 \<Longrightarrow> failed (upstream (flaky d) k r)"
  by (simp add: flaky_def failed_def)

lemma flaky_recovers: "\<not> k < 2 \<Longrightarrow> upstream (flaky d) k r = Body good_account"
  by (simp add: flaky_def)

lemma good_account_inbox:
  "find_inbox [JObj [(''path'', JStr ''Trash''), (''id'', JStr ''m0'')],
               JObj [(''path'', JStr ''INBOX''), (''id'', JStr ''m1'')]]
     = Inr (Some (JObj [(''path'', JStr ''INBOX''), (''id'', JStr ''m1'')]))"
  by simp

text \<open>
  Claim C1. For every \<open>max_retries\<close> of at least 1, if every call to the provider fails,
  \<open>create_new_account\<close> (for an API key that is not empty, so that the client exists) raises
  \<open>AccountCreationError\<close> after exactly \<open>max_retries\<close> creation requests, one per attempt and
  each for a newly drawn address, with a sleep of 3 seconds between consecutive attempts and
  none after the last.
\<close>

theorem retries_exhausted:
  assumes "api_key \<noteq> []" and "1 \<le> max_retries" and "\<forall>k r. failed (upstream e k r)"
  shows "\<exists>w'. create_new_account e api_key domain pw max_retries w = (Inl AccountCreationError, w')
     \<and> calls w' = calls w @ attempt_requests e domain pw (rng_pos w) (nat max_retries)
     \<and> length (calls w') = length (calls w) + nat max_retries
     \<and> sleeps w' = sleeps w @ replicate (nat max_retries - 1) 3"
proof -
  from assms(2) obtain n where n: "nat max_retries = Suc n"
    by (cases "nat max_retries") auto
  then have "Suc n = nat (max_retries - 0)" by simp
  from create_loop_all_fail[OF assms(3) this, of domain pw
      "\<lparr>address = None, password = None, account_id = JNull, mailbox_id = JNull\<rparr>" w]
  obtain w' where
    r: "create_loop e domain pw max_retries 0
          \<lparr>address = None, password = None, account_id = JNull, mailbox_id = JNull\<rparr> w
        = (Inl AccountCreationError, w')"
    and c: "calls w' = calls w @ attempt_requests e domain pw (rng_pos w) (Suc n)"
    and s: "sleeps w' = sleeps w @ replicate n 3"
    by blast
  have "length (attempt_requests e domain pw (rng_pos w) (Suc n)) = Suc n"
    by (simp add: attempt_requests_def)
  with r c s n assms(1) show ?thesis
    by (simp add: create_new_account_def MailTmClient_def)
qed

theorem retries_exhausted_witness:
  "(\<forall>k r. failed (upstream (provider RequestError) k r)) \<and>
   (\<exists>w'. create_new_account (provider RequestError) ''key'' ''vvvcx.me'' ''thisispassword'' 3 world0
         = (Inl AccountCreationError, w')
     \<and> calls w' = [post_account ''abcdefghij@vvvcx.me'' ''thisispassword'',
                   post_account ''klmnopqrst@vvvcx.me'' ''thisispassword'',
                   post_account ''uvwxyz0123@vvvcx.me'' ''thisispassword'']
     \<and> sleeps w' = [3, 3])"
proof -
  have k: "''key'' \<noteq> []" and m: "(1::int) \<le> 3" by simp_all
  have f: "\<forall>k r. failed (upstream (provider RequestError) k r)"
    by (simp add: provider_def failed_def)
  have a: "attempt_requests (provider RequestError) ''vvvcx.me'' ''thisispassword'' 0 3 =
      [post_account ''abcdefghij@vvvcx.me'' ''thisispassword'',
       post_account ''klmnopqrst@vvvcx.me'' ''thisispassword'',
       post_account ''uvwxyz0123@vvvcx.me'' ''thisispassword'']"
    by code_simp
  have n: "nat 3 = 3" "replicate (3 - 1) (3::int) = [3, 3]"
    by (simp_all add: eval_nat_numeral)
  from retries_exhausted[OF k m f, of "''vvvcx.me''" "''thisispassword''" world0]
  obtain w' where
    r: "create_new_account (provider RequestError) ''key'' ''vvvcx.me'' ''thisispassword'' 3 world0
         = (Inl AccountCreationError, w')"
    and c: "calls w' = calls world0 @
           attempt_requests (provider RequestError) ''vvvcx.me'' ''thisispassword'' (rng_pos world0) (nat 3)"
    and sl: "sleeps w' = sleeps world0 @ replicate (nat 3 - 1) 3"
    by blast
  have p: "rng_pos world0 = 0" "calls world0 = []" "sleeps world0 = []"
    by (simp_all add: world0_def)
  from c have c': "calls w' = [post_account ''abcdefghij@vvvcx.me'' ''thisispassword'',
                   post_account ''klmnopqrst@vvvcx.me'' ''thisispassword'',
                   post_account ''uvwxyz0123@vvvcx.me'' ''thisispassword'']"
    unfolding p n a by simp
  from sl have sl': "sleeps w' = [3, 3]"
    unfolding p n by simp
  from f r c' sl' show ?thesis by blast
qed

text \<open>
  Claim C2, as amended. On every successful \<open>create_new_account\<close> the address of the returned
  client matches \<open>^[a-z0-9]{10}@<domain>$\<close> and is the one sent in the last creation request;
  \<open>account_id\<close> is the \<open>id\<close> field of the provider's answer to that request and \<open>mailbox_id\<close> is
  the \<open>id\<close> field of the first entry with path \<open>"INBOX"\<close> in its mailbox list. Neither
  identifier is checked for being empty.
\<close>

theorem created_account_fields:
  assumes "create_new_account e api_key domain pw max_retries w = (Inr inst, w')"
  shows "\<exists>a kvs mbs ikvs. address inst = Some a \<and> matches_address domain a
     \<and> calls w' \<noteq> [] \<and> last (calls w') = post_account a pw
     \<and> upstream e (length (calls w') - 1) (last (calls w')) = Body (JObj kvs)
     \<and> map_of kvs ''id'' = Some (account_id inst)
     \<and> map_of kvs ''mailboxes'' = Some (JList mbs)
     \<and> find_inbox mbs = Inr (Some (JObj ikvs))
     \<and> map_of ikvs ''id'' = Some (mailbox_id inst)"
proof -
  from assms obtain inst0 where "create_loop e domain pw max_retries 0 inst0 w = (Inr inst, w')"
    by (auto simp: create_new_account_def split: sum.splits)
  from create_loop_Inr[OF this] obtain i0 w0 where
    t: "try_create e domain pw i0 w0 = (None, inst, w')" by blast
  from try_create_None[OF t] obtain kvs mbs ikvs where
    r: "upstream e (length (calls w0)) (post_account (attempt_address e domain w0) pw) = Body (JObj kvs)"
      "map_of kvs ''id'' = Some (account_id inst)"
      "map_of kvs ''mailboxes'' = Some (JList mbs)"
      "find_inbox mbs = Inr (Some (JObj ikvs))"
      "map_of ikvs ''id'' = Some (mailbox_id inst)"
      "address inst = Some (attempt_address e domain w0)"
      "w' = after_post e domain pw w0"
    by blast
  have c: "calls w' \<noteq> []" "last (calls w') = post_account (attempt_address e domain w0) pw"
    "length (calls w') - 1 = length (calls w0)"
    using r(7) by (simp_all add: after_post_def)
  show ?thesis
    using r(1-6) c matches_attempt_address[of domain e w0] by auto
qed

theorem created_account_fields_witness:
  "create_new_account (provider (Body good_account)) ''key'' ''vvvcx.me'' ''thisispassword'' 3 world0 =
     (Inr \<lparr>address = Some ''abcdefghij@vvvcx.me'', password = Some ''thisispassword'',
           account_id = JStr ''a1'', mailbox_id = JStr ''m1''\<rparr>,
      \<lparr>calls = [post_account ''abcdefghij@vvvcx.me'' ''thisispassword''],
       sleeps = [], now = 0, rng_pos = 10, sessions_closed = 0\<rparr>) \<and>
   matches_address ''vvvcx.me'' ''abcdefghij@vvvcx.me''"
proof -
  have run: "create_new_account (provider (Body good_account)) ''key'' ''vvvcx.me'' ''thisispassword'' 3 world0 =
     (Inr \<lparr>address = Some ''abcdefghij@vvvcx.me'', password = Some ''thisispassword'',
           account_id = JStr ''a1'', mailbox_id = JStr ''m1''\<rparr>,
      \<lparr>calls = [post_account ''abcdefghij@vvvcx.me'' ''thisispassword''],
       sleeps = [], now = 0, rng_pos = 10, sessions_closed = 0\<rparr>)"
    by code_simp
  from created_account_fields[OF run] run show ?thesis by auto
qed

text \<open>
  The claim as stated fails: when the provider answers with empty identifiers, the call
  succeeds and returns them.
\<close>

theorem created_account_fields_counterexample:
  "create_new_account (provider (Body blank_account)) ''key'' ''vvvcx.me'' ''thisispassword'' 3 world0 =
     (Inr \<lparr>address = Some ''abcdefghij@vvvcx.me'', password = Some ''thisispassword'',
           account_id = JStr [], mailbox_id = JStr []\<rparr>,
      \<lparr>calls = [post_account ''abcdefghij@vvvcx.me'' ''thisispassword''],
       sleeps = [], now = 0, rng_pos = 10, sessions_closed = 0\<rparr>)"
  by code_simp

text \<open>
  One attempt: what a successful attempt stores, what an answer without an inbox raises, and
  that the loop goes on after it as after a failed call.
\<close>

lemma inbox_attempt:
  "(try_create e domain pw inst w = (None, inst1, w1) \<longrightarrow>
      (\<exists>kvs mbs ikvs.
          upstream e (length (calls w)) (post_account (attempt_address e domain w) pw) = Body (JObj kvs)
        \<and> map_of kvs ''mailboxes'' = Some (JList mbs)
        \<and> JObj ikvs \<in> set mbs
        \<and> map_of ikvs ''path'' = Some (JStr ''INBOX'')
        \<and> map_of ikvs ''id'' = Some (mailbox_id inst1)))
   \<and> (upstream e (length (calls w)) (post_account (attempt_address e domain w) pw) = Body (JObj kvs0)
        \<and> map_of kvs0 ''id'' = Some aid
        \<and> dict_get (JObj kvs0) ''mailboxes'' (JList []) = Inr (JList mbs0)
        \<and> list_all other_mailbox mbs0 \<longrightarrow>
      (\<exists>inst2.
          try_create e domain pw inst w = (Some MailTmError, inst2, after_post e domain pw w)
        \<and> (attempt < max_retries - 1 \<longrightarrow>
              create_loop e domain pw max_retries attempt inst w =
              create_loop e domain pw max_retries (attempt + 1) inst2
                (sleep 3 (after_post e domain pw w)))
        \<and> (attempt = max_retries - 1 \<longrightarrow>
              create_loop e domain pw max_retries attempt inst w =
              (Inl AccountCreationError, after_post e domain pw w))))
   \<and> (failed (upstream e (length (calls w)) (post_account (attempt_address e domain w) pw)) \<longrightarrow>
          try_create e domain pw inst w = (Some MailTmError, inst, after_post e domain pw w)
        \<and> (attempt < max_retries - 1 \<longrightarrow>
              create_loop e domain pw max_retries attempt inst w =
              create_loop e domain pw max_retries (attempt + 1) inst
                (sleep 3 (after_post e domain pw w)))
        \<and> (attempt = max_retries - 1 \<longrightarrow>
              create_loop e domain pw max_retries attempt inst w =
              (Inl AccountCreationError, after_post e domain pw w)))"
proof (intro conjI impI)
  assume t: "try_create e domain pw inst w = (None, inst1, w1)"
  from try_create_None[OF t] obtain kvs mbs ikvs where
    r: "upstream e (length (calls w)) (post_account (attempt_address e domain w) pw) = Body (JObj kvs)"
      "map_of kvs ''mailboxes'' = Some (JList mbs)"
      "find_inbox mbs = Inr (Some (JObj ikvs))"
      "map_of ikvs ''id'' = Some (mailbox_id inst1)"
    by blast
  from find_inbox_Some[OF r(3)] have "JObj ikvs \<in> set mbs" "map_of ikvs ''path'' = Some (JStr ''INBOX'')"
    by auto
  with r show "\<exists>kvs mbs ikvs.
          upstream e (length (calls w)) (post_account (attempt_address e domain w) pw) = Body (JObj kvs)
        \<and> map_of kvs ''mailboxes'' = Some (JList mbs)
        \<and> JObj ikvs \<in> set mbs
        \<and> map_of ikvs ''path'' = Some (JStr ''INBOX'')
        \<and> map_of ikvs ''id'' = Some (mailbox_id inst1)"
    by blast
next
  assume h: "upstream e (length (calls w)) (post_account (attempt_address e domain w) pw) = Body (JObj kvs0)
        \<and> map_of kvs0 ''id'' = Some aid
        \<and> dict_get (JObj kvs0) ''mailboxes'' (JList []) = Inr (JList mbs0)
        \<and> list_all other_mailbox mbs0"
  let ?inst2 = "inst\<lparr>account_id := aid, address := Some (attempt_address e domain w), password := Some pw\<rparr>"
  have t: "try_create e domain pw inst w = (Some MailTmError, ?inst2, after_post e domain pw w)"
    using h by (intro try_create_boxless) blast+
  have m: "is_MailTmError MailTmError" by simp
  have "attempt < max_retries - 1 \<longrightarrow>
              create_loop e domain pw max_retries attempt inst w =
              create_loop e domain pw max_retries (attempt + 1) ?inst2
                (sleep 3 (after_post e domain pw w))"
    using create_loop_retry[OF _ t m] by blast
  moreover have "attempt = max_retries - 1 \<longrightarrow>
              create_loop e domain pw max_retries attempt inst w =
              (Inl AccountCreationError, after_post e domain pw w)"
    using create_loop_last[OF _ t m] by blast
  ultimately show "\<exists>inst2.
          try_create e domain pw inst w = (Some MailTmError, inst2, after_post e domain pw w)
        \<and> (attempt < max_retries - 1 \<longrightarrow>
              create_loop e domain pw max_retries attempt inst w =
              create_loop e domain pw max_retries (attempt + 1) inst2
                (sleep 3 (after_post e domain pw w)))
        \<and> (attempt = max_retries - 1 \<longrightarrow>
              create_loop e domain pw max_retries attempt inst w =
              (Inl AccountCreationError, after_post e domain pw w))"
    using t by blast
next
  assume f: "failed (upstream e (length (calls w)) (post_account (attempt_address e domain w) pw))"
  then show t: "try_create e domain pw inst w = (Some MailTmError, inst, after_post e domain pw w)"
    by (rule try_create_failed)
  have m: "is_MailTmError MailTmError" by simp
  {
    assume "attempt < max_retries - 1"
    then show "create_loop e domain pw max_retries attempt inst w =
              create_loop e domain pw max_retries (attempt + 1) inst
                (sleep 3 (after_post e domain pw w))"
      using t m by (rule create_loop_retry)
  }
  {
    assume "attempt = max_retries - 1"
    then show "create_loop e domain pw max_retries attempt inst w =
              (Inl AccountCreationError, after_post e domain pw w)"
      using t m by (rule create_loop_last)
  }
qed

lemma try_create_inboxless:
  assumes "inboxless (upstream e (length (calls w)) (post_account (attempt_address e domain w) pw))"
  shows "\<exists>inst1. try_create e domain pw inst w = (Some MailTmError, inst1, after_post e domain pw w)"
proof -
  from assms obtain kvs where
    up: "upstream e (length (calls w)) (post_account (attempt_address e domain w) pw) = Body (JObj kvs)"
    by (cases "upstream e (length (calls w)) (post_account (attempt_address e domain w) pw)"
        rule: inboxless.cases) auto
  with assms obtain aid where aid: "map_of kvs ''id'' = Some aid" by auto
  from assms up obtain mbs where
    mb: "dict_get (JObj kvs) ''mailboxes'' (JList []) = Inr (JList mbs)" "list_all other_mailbox mbs"
    by (auto split: option.splits json.splits)
  from try_create_boxless[OF up aid mb] show ?thesis by blast
qed

lemma create_loop_all_raise:
  assumes raises: "\<And>inst w. \<exists>inst1.
      try_create e domain pw inst w = (Some MailTmError, inst1, after_post e domain pw w)"
  shows "Suc n = nat (max_retries - attempt) \<Longrightarrow>
     \<exists>w'. create_loop e domain pw max_retries attempt inst w = (Inl AccountCreationError, w')
       \<and> calls w' = calls w @ attempt_requests e domain pw (rng_pos w) (Suc n)
       \<and> sleeps w' = sleeps w @ replicate n 3"
proof (induction n arbitrary: attempt inst w)
  case 0
  then have a: "attempt = max_retries - 1" by linarith
  from raises[of inst w] obtain inst1 where
    t: "try_create e domain pw inst w = (Some MailTmError, inst1, after_post e domain pw w)" by blast
  have m: "is_MailTmError MailTmError" by simp
  show ?case
    by (simp add: create_loop_last[OF a t m] after_post_def attempt_requests_def attempt_address_def)
next
  case (Suc n)
  then have a: "attempt < max_retries - 1" by linarith
  from raises[of inst w] obtain inst1 where
    t: "try_create e domain pw inst w = (Some MailTmError, inst1, after_post e domain pw w)" by blast
  have m: "is_MailTmError MailTmError" by simp
  let ?w2 = "sleep 3 (after_post e domain pw w)"
  from Suc.prems have "Suc n = nat (max_retries - (attempt + 1))" by linarith
  from Suc.IH[OF this, of inst1 ?w2] obtain w' where
    r: "create_loop e domain pw max_retries (attempt + 1) inst1 ?w2 = (Inl AccountCreationError, w')"
    and c: "calls w' = calls ?w2 @ attempt_requests e domain pw (rng_pos ?w2) (Suc n)"
    and s: "sleeps w' = sleeps ?w2 @ replicate n 3"
    by blast
  have "attempt_requests e domain pw (rng_pos w) (Suc (Suc n)) =
      post_account (attempt_address e domain w) pw # attempt_requests e domain pw (rng_pos w + 10) (Suc n)"
    unfolding attempt_requests_def attempt_address_def
    by (subst map_upt_Suc) (simp add: add.assoc)
  with r c s show ?case
    by (simp add: create_loop_retry[OF a t m] sleep_def after_post_def replicate_append_same)
qed

lemma client_all_fields:
  "(inst :: client)\<lparr>account_id := aid, address := a, password := p, mailbox_id := mid\<rparr> =
     \<lparr>address = a, password = p, account_id = aid, mailbox_id = mid\<rparr>"
  by (cases inst) simp

lemma inbox_returned:
  "(create_new_account e api_key domain pw max_retries w = (Inr acct, w') \<longrightarrow>
      (\<exists>kvs mbs ikvs.
          calls w' \<noteq> []
        \<and> upstream e (length (calls w') - 1) (last (calls w')) = Body (JObj kvs)
        \<and> map_of kvs ''mailboxes'' = Some (JList mbs)
        \<and> find_inbox mbs = Inr (Some (JObj ikvs))
        \<and> JObj ikvs \<in> set mbs
        \<and> map_of ikvs ''path'' = Some (JStr ''INBOX'')
        \<and> map_of ikvs ''id'' = Some (mailbox_id acct)))
   \<and> (api_key \<noteq> [] \<and> 1 \<le> max_retries
        \<and> upstream e (length (calls w)) (post_account (attempt_address e domain w) pw) = Body (JObj kvs)
        \<and> map_of kvs ''id'' = Some aid
        \<and> map_of kvs ''mailboxes'' = Some (JList mbs)
        \<and> find_inbox mbs = Inr (Some (JObj ikvs))
        \<and> map_of ikvs ''id'' = Some mid \<longrightarrow>
      create_new_account e api_key domain pw max_retries w =
        (Inr \<lparr>address = Some (attempt_address e domain w), password = Some pw,
              account_id = aid, mailbox_id = mid\<rparr>,
         after_post e domain pw w))
   \<and> (api_key \<noteq> [] \<and> 2 \<le> max_retries
        \<and> inboxless (upstream e (length (calls w)) (post_account (attempt_address e domain w) pw))
        \<and> upstream e (length (calls w) + 1)
             (post_account (attempt_address e domain (sleep 3 (after_post e domain pw w))) pw)
            = Body (JObj kvs)
        \<and> map_of kvs ''id'' = Some aid
        \<and> map_of kvs ''mailboxes'' = Some (JList mbs)
        \<and> find_inbox mbs = Inr (Some (JObj ikvs))
        \<and> map_of ikvs ''id'' = Some mid \<longrightarrow>
      create_new_account e api_key domain pw max_retries w =
        (Inr \<lparr>address = Some (attempt_address e domain (sleep 3 (after_post e domain pw w))),
              password = Some pw, account_id = aid, mailbox_id = mid\<rparr>,
         after_post e domain pw (sleep 3 (after_post e domain pw w))))
   \<and> (api_key \<noteq> [] \<and> 1 \<le> max_retries \<and> (\<forall>k r. inboxless (upstream e k r)) \<longrightarrow>
      (\<exists>w1. create_new_account e api_key domain pw max_retries w = (Inl AccountCreationError, w1)
        \<and> calls w1 = calls w @ attempt_requests e domain pw (rng_pos w) (nat max_retries)
        \<and> sleeps w1 = sleeps w @ replicate (nat max_retries - 1) 3))"
proof (intro conjI impI)
  let ?i = "\<lparr>address = None, password = None, account_id = JNull, mailbox_id = JNull\<rparr>"
  {
    assume "create_new_account e api_key domain pw max_retries w = (Inr acct, w')"
    then obtain inst0 where "create_loop e domain pw max_retries 0 inst0 w = (Inr acct, w')"
      by (auto simp: create_new_account_def split: sum.splits)
    from create_loop_Inr[OF this] obtain i0 w0 where
      t: "try_create e domain pw i0 w0 = (None, acct, w')" by blast
    from try_create_None[OF t] obtain kvs mbs ikvs where
      r: "upstream e (length (calls w0)) (post_account (attempt_address e domain w0) pw) = Body (JObj kvs)"
        "map_of kvs ''mailboxes'' = Some (JList mbs)"
        "find_inbox mbs = Inr (Some (JObj ikvs))"
        "map_of ikvs ''id'' = Some (mailbox_id acct)"
        "w' = after_post e domain pw w0"
      by blast
    from find_inbox_Some[OF r(3)]
    have i: "JObj ikvs \<in> set mbs" "map_of ikvs ''path'' = Some (JStr ''INBOX'')" by auto
    have c: "calls w' \<noteq> []" "last (calls w') = post_account (attempt_address e domain w0) pw"
      "length (calls w') - 1 = length (calls w0)"
      using r(5) by (simp_all add: after_post_def)
    show "\<exists>kvs mbs ikvs.
          calls w' \<noteq> []
        \<and> upstream e (length (calls w') - 1) (last (calls w')) = Body (JObj kvs)
        \<and> map_of kvs ''mailboxes'' = Some (JList mbs)
        \<and> find_inbox mbs = Inr (Some (JObj ikvs))
        \<and> JObj ikvs \<in> set mbs
        \<and> map_of ikvs ''path'' = Some (JStr ''INBOX'')
        \<and> map_of ikvs ''id'' = Some (mailbox_id acct)"
      using r(1-4) i c by auto
  }
  {
    assume h: "api_key \<noteq> [] \<and> 1 \<le> max_retries
        \<and> upstream e (length (calls w)) (post_account (attempt_address e domain w) pw) = Body (JObj kvs)
        \<and> map_of kvs ''id'' = Some aid
        \<and> map_of kvs ''mailboxes'' = Some (JList mbs)
        \<and> find_inbox mbs = Inr (Some (JObj ikvs))
        \<and> map_of ikvs ''id'' = Some mid"
    then have g: "upstream e (length (calls w)) (post_account (attempt_address e domain w) pw)
          = Body (JObj kvs)"
        "map_of kvs ''id'' = Some aid" "map_of kvs ''mailboxes'' = Some (JList mbs)"
        "find_inbox mbs = Inr (Some (JObj ikvs))" "map_of ikvs ''id'' = Some mid"
      by simp_all
    have t: "try_create e domain pw ?i w =
       (None, ?i\<lparr>account_id := aid, address := Some (attempt_address e domain w), password := Some pw,
             mailbox_id := mid\<rparr>, after_post e domain pw w)"
      by (rule try_create_good[OF g])
    have "create_loop e domain pw max_retries 0 ?i w =
       (Inr (?i\<lparr>account_id := aid, address := Some (attempt_address e domain w), password := Some pw,
             mailbox_id := mid\<rparr>), after_post e domain pw w)"
      by (rule create_loop_success[OF _ t]) (use h in simp)
    then show "create_new_account e api_key domain pw max_retries w =
        (Inr \<lparr>address = Some (attempt_address e domain w), password = Some pw,
              account_id = aid, mailbox_id = mid\<rparr>,
         after_post e domain pw w)"
      using h by (simp add: create_new_account_def MailTmClient_def)
  }
  {
    let ?w2 = "sleep 3 (after_post e domain pw w)"
    assume h: "api_key \<noteq> [] \<and> 2 \<le> max_retries
        \<and> inboxless (upstream e (length (calls w)) (post_account (attempt_address e domain w) pw))
        \<and> upstream e (length (calls w) + 1)
             (post_account (attempt_address e domain (sleep 3 (after_post e domain pw w))) pw)
            = Body (JObj kvs)
        \<and> map_of kvs ''id'' = Some aid
        \<and> map_of kvs ''mailboxes'' = Some (JList mbs)
        \<and> find_inbox mbs = Inr (Some (JObj ikvs))
        \<and> map_of ikvs ''id'' = Some mid"
    then have "inboxless (upstream e (length (calls w)) (post_account (attempt_address e domain w) pw))"
      by blast
    from try_create_inboxless[OF this, of ?i] obtain inst1 where
      t1: "try_create e domain pw ?i w = (Some MailTmError, inst1, after_post e domain pw w)"
      by blast
    have m: "is_MailTmError MailTmError" by simp
    have l: "length (calls ?w2) = length (calls w) + 1"
      by (simp add: sleep_def after_post_def)
    from h have g: "upstream e (length (calls ?w2)) (post_account (attempt_address e domain ?w2) pw)
          = Body (JObj kvs)"
        "map_of kvs ''id'' = Some aid" "map_of kvs ''mailboxes'' = Some (JList mbs)"
        "find_inbox mbs = Inr (Some (JObj ikvs))" "map_of ikvs ''id'' = Some mid"
      by (simp_all add: l)
    have t2: "try_create e domain pw inst1 ?w2 =
       (None, inst1\<lparr>account_id := aid, address := Some (attempt_address e domain ?w2),
             password := Some pw, mailbox_id := mid\<rparr>, after_post e domain pw ?w2)"
      by (rule try_create_good[OF g])
    have "create_loop e domain pw max_retries 0 ?i w =
        create_loop e domain pw max_retries (0 + 1) inst1 ?w2"
      by (rule create_loop_retry[OF _ t1 m]) (use h in simp)
    also have "\<dots> = (Inr (inst1\<lparr>account_id := aid, address := Some (attempt_address e domain ?w2),
             password := Some pw, mailbox_id := mid\<rparr>), after_post e domain pw ?w2)"
      by (rule create_loop_success[OF _ t2]) (use h in simp)
    finally show "create_new_account e api_key domain pw max_retries w =
        (Inr \<lparr>address = Some (attempt_address e domain (sleep 3 (after_post e domain pw w))),
              password = Some pw, account_id = aid, mailbox_id = mid\<rparr>,
         after_post e domain pw (sleep 3 (after_post e domain pw w)))"
      using h by (simp add: create_new_account_def MailTmClient_def client_all_fields)
  }
  {
    assume h: "api_key \<noteq> [] \<and> 1 \<le> max_retries \<and> (\<forall>k r. inboxless (upstream e k r))"
    then obtain n where n: "nat max_retries = Suc n"
      by (cases "nat max_retries") auto
    then have s: "Suc n = nat (max_retries - 0)" by simp
    have raises: "\<exists>inst1.
        try_create e domain pw inst w = (Some MailTmError, inst1, after_post e domain pw w)" for inst w
      using h by (intro try_create_inboxless) blast
    from create_loop_all_raise[of e domain pw n max_retries 0 ?i w, OF raises s]
    obtain w1 where
      r: "create_loop e domain pw max_retries 0 ?i w = (Inl AccountCreationError, w1)"
      and c: "calls w1 = calls w @ attempt_requests e domain pw (rng_pos w) (Suc n)"
      and sl: "sleeps w1 = sleeps w @ replicate n 3"
      by blast
    from r c sl n h
    show "\<exists>w1. create_new_account e api_key domain pw max_retries w = (Inl AccountCreationError, w1)
        \<and> calls w1 = calls w @ attempt_requests e domain pw (rng_pos w) (nat max_retries)
        \<and> sleeps w1 = sleeps w @ replicate (nat max_retries - 1) 3"
      by (simp add: create_new_account_def MailTmClient_def)
  }
qed

text \<open>
  Claim C5. Whenever \<open>create_new_account\<close> returns a client, its \<open>mailbox_id\<close> is the \<open>id\<close> of
  an entry with path \<open>"INBOX"\<close> (the first such entry) of the mailbox list in the provider's answer
  to the last creation request; an answer with an inbox to the first request makes the call
  return the client with that inbox. When an answer carries an account id and a mailbox list
  (absent counts as empty) of entries none of which has that path, the attempt raises
  \<open>MailTmError\<close>, and the loop treats it as it treats a failed call: it sleeps 3 seconds and
  makes the next attempt, or raises \<open>AccountCreationError\<close> if this was the last one. So an
  answer without an inbox followed by one with an inbox makes the call return the client of the
  second attempt, and answers that never have an inbox make it raise \<open>AccountCreationError\<close>
  after \<open>max_retries\<close> requests and \<open>max_retries - 1\<close> sleeps.
\<close>

theorem inbox_resolved:
  "((create_new_account e api_key domain pw max_retries w = (Inr acct, w') \<longrightarrow>
      (\<exists>kvs mbs ikvs.
          calls w' \<noteq> []
        \<and> upstream e (length (calls w') - 1) (last (calls w')) = Body (JObj kvs)
        \<and> map_of kvs ''mailboxes'' = Some (JList mbs)
        \<and> find_inbox mbs = Inr (Some (JObj ikvs))
        \<and> JObj ikvs \<in> set mbs
        \<and> map_of ikvs ''path'' = Some (JStr ''INBOX'')
        \<and> map_of ikvs ''id'' = Some (mailbox_id acct)))
   \<and> (api_key \<noteq> [] \<and> 1 \<le> max_retries
        \<and> upstream e (length (calls w)) (post_account (attempt_address e domain w) pw) = Body (JObj kvs)
        \<and> map_of kvs ''id'' = Some aid
        \<and> map_of kvs ''mailboxes'' = Some (JList mbs)
        \<and> find_inbox mbs = Inr (Some (JObj ikvs))
        \<and> map_of ikvs ''id'' = Some mid \<longrightarrow>
      create_new_account e api_key domain pw max_retries w =
        (Inr \<lparr>address = Some (attempt_address e domain w), password = Some pw,
              account_id = aid, mailbox_id = mid\<rparr>,
         after_post e domain pw w))
   \<and> (api_key \<noteq> [] \<and> 2 \<le> max_retries
        \<and> inboxless (upstream e (length (calls w)) (post_account (attempt_address e domain w) pw))
        \<and> upstream e (length (calls w) + 1)
             (post_account (attempt_address e domain (sleep 3 (after_post e domain pw w))) pw)
            = Body (JObj kvs)
        \<and> map_of kvs ''id'' = Some aid
        \<and> map_of kvs ''mailboxes'' = Some (JList mbs)
        \<and> find_inbox mbs = Inr (Some (JObj ikvs))
        \<and> map_of ikvs ''id'' = Some mid \<longrightarrow>
      create_new_account e api_key domain pw max_retries w =
        (Inr \<lparr>address = Some (attempt_address e domain (sleep 3 (after_post e domain pw w))),
              password = Some pw, account_id = aid, mailbox_id = mid\<rparr>,
         after_post e domain pw (sleep 3 (after_post e domain pw w))))
   \<and> (api_key \<noteq> [] \<and> 1 \<le> max_retries \<and> (\<forall>k r. inboxless (upstream e k r)) \<longrightarrow>
      (\<exists>w1. create_new_account e api_key domain pw max_retries w = (Inl AccountCreationError, w1)
        \<and> calls w1 = calls w @ attempt_requests e domain pw (rng_pos w) (nat max_retries)
        \<and> sleeps w1 = sleeps w @ replicate (nat max_retries - 1) 3)))
   \<and> ((try_create e domain pw inst w = (None, inst1, w1) \<longrightarrow>
      (\<exists>kvs mbs ikvs.
          upstream e (length (calls w)) (post_account (attempt_address e domain w) pw) = Body (JObj kvs)
        \<and> map_of kvs ''mailboxes'' = Some (JList mbs)
        \<and> JObj ikvs \<in> set mbs
        \<and> map_of ikvs ''path'' = Some (JStr ''INBOX'')
        \<and> map_of ikvs ''id'' = Some (mailbox_id inst1)))
   \<and> (upstream e (length (calls w)) (post_account (attempt_address e domain w) pw) = Body (JObj kvs0)
        \<and> map_of kvs0 ''id'' = Some aid
        \<and> dict_get (JObj kvs0) ''mailboxes'' (JList []) = Inr (JList mbs0)
        \<and> list_all other_mailbox mbs0 \<longrightarrow>
      (\<exists>inst2.
          try_create e domain pw inst w = (Some MailTmError, inst2, after_post e domain pw w)
        \<and> (attempt < max_retries - 1 \<longrightarrow>
              create_loop e domain pw max_retries attempt inst w =
              create_loop e domain pw max_retries (attempt + 1) inst2
                (sleep 3 (after_post e domain pw w)))
        \<and> (attempt = max_retries - 1 \<longrightarrow>
              create_loop e domain pw max_retries attempt inst w =
              (Inl AccountCreationError, after_post e domain pw w))))
   \<and> (failed (upstream e (length (calls w)) (post_account (attempt_address e domain w) pw)) \<longrightarrow>
          try_create e domain pw inst w = (Some MailTmError, inst, after_post e domain pw w)
        \<and> (attempt < max_retries - 1 \<longrightarrow>
              create_loop e domain pw max_retries attempt inst w =
              create_loop e domain pw max_retries (attempt + 1) inst
                (sleep 3 (after_post e domain pw w)))
        \<and> (attempt = max_retries - 1 \<longrightarrow>
              create_loop e domain pw max_retries attempt inst w =
              (Inl AccountCreationError, after_post e domain pw w))))"
  by (rule conjI[OF inbox_returned inbox_attempt])

theorem inbox_resolved_witness:
  "create_new_account (provider (Body good_account)) ''key'' ''vvvcx.me'' ''thisispassword'' 3 world0 =
     (Inr \<lparr>address = Some ''abcdefghij@vvvcx.me'', password = Some ''thisispassword'',
           account_id = JStr ''a1'', mailbox_id = JStr ''m1''\<rparr>,
      after_post (provider (Body good_account)) ''vvvcx.me'' ''thisispassword'' world0)
   \<and> (\<exists>kvs mbs ikvs.
          upstream (provider (Body good_account))
            (length (calls (after_post (provider (Body good_account)) ''vvvcx.me'' ''thisispassword''
               world0)) - 1)
            (last (calls (after_post (provider (Body good_account)) ''vvvcx.me'' ''thisispassword''
               world0))) = Body (JObj kvs)
        \<and> map_of kvs ''mailboxes'' = Some (JList mbs)
        \<and> JObj ikvs \<in> set mbs
        \<and> map_of ikvs ''path'' = Some (JStr ''INBOX'')
        \<and> map_of ikvs ''id'' = Some (JStr ''m1''))
   \<and> inboxless (upstream late_inbox 0 (post_account ''abcdefghij@vvvcx.me'' ''thisispassword''))
   \<and> create_new_account late_inbox ''key'' ''vvvcx.me'' ''thisispassword'' 3 world0 =
     (Inr \<lparr>address = Some ''klmnopqrst@vvvcx.me'', password = Some ''thisispassword'',
           account_id = JStr ''a1'', mailbox_id = JStr ''m1''\<rparr>,
      after_post late_inbox ''vvvcx.me'' ''thisispassword''
        (sleep 3 (after_post late_inbox ''vvvcx.me'' ''thisispassword'' world0)))
   \<and> (\<forall>k r. inboxless (upstream (provider (Body boxless_account)) k r))
   \<and> (\<exists>w1. create_new_account (provider (Body boxless_account)) ''key'' ''vvvcx.me''
            ''thisispassword'' 3 world0 = (Inl AccountCreationError, w1)
        \<and> length (calls w1) = 3 \<and> sleeps w1 = [3, 3])
   \<and> try_create (provider (Body good_account)) ''vvvcx.me'' ''thisispassword'' fresh_client world0 =
     (None,
      \<lparr>address = Some ''abcdefghij@vvvcx.me'', password = Some ''thisispassword'',
       account_id = JStr ''a1'', mailbox_id = JStr ''m1''\<rparr>,
      after_post (provider (Body good_account)) ''vvvcx.me'' ''thisispassword'' world0)
   \<and> (\<exists>kvs mbs ikvs.
          upstream (provider (Body good_account)) (length (calls world0))
            (post_account (attempt_address (provider (Body good_account)) ''vvvcx.me'' world0)
               ''thisispassword'') = Body (JObj kvs)
        \<and> map_of kvs ''mailboxes'' = Some (JList mbs)
        \<and> JObj ikvs \<in> set mbs
        \<and> map_of ikvs ''path'' = Some (JStr ''INBOX'')
        \<and> map_of ikvs ''id'' = Some (JStr ''m1''))
   \<and> list_all other_mailbox [JObj [(''path'', JStr ''Trash''), (''id'', JStr ''m0'')]]
   \<and> (\<exists>inst2.
          try_create (provider (Body boxless_account)) ''vvvcx.me'' ''thisispassword'' fresh_client world0
            = (Some MailTmError, inst2,
               after_post (provider (Body boxless_account)) ''vvvcx.me'' ''thisispassword'' world0)
        \<and> create_loop (provider (Body boxless_account)) ''vvvcx.me'' ''thisispassword'' 3 0
              fresh_client world0 =
            create_loop (provider (Body boxless_account)) ''vvvcx.me'' ''thisispassword'' 3 1 inst2
              (sleep 3 (after_post (provider (Body boxless_account)) ''vvvcx.me'' ''thisispassword'' world0))
        \<and> create_loop (provider (Body boxless_account)) ''vvvcx.me'' ''thisispassword'' 1 0
              fresh_client world0 =
            (Inl AccountCreationError,
             after_post (provider (Body boxless_account)) ''vvvcx.me'' ''thisispassword'' world0))
   \<and> failed (upstream (provider RequestError) (length (calls world0))
         (post_account (attempt_address (provider RequestError) ''vvvcx.me'' world0) ''thisispassword''))
   \<and> create_loop (provider RequestError) ''vvvcx.me'' ''thisispassword'' 1 0 fresh_client world0 =
         (Inl AccountCreationError,
          after_post (provider RequestError) ''vvvcx.me'' ''thisispassword'' world0)"
proof -
  let ?good = "provider (Body good_account)" and ?bad = "provider (Body boxless_account)"
  let ?dom = "''vvvcx.me''" and ?pw = "''thisispassword''"
  let ?gkvs = "[(''id'', JStr ''a1''),
      (''mailboxes'', JList [JObj [(''path'', JStr ''Trash''), (''id'', JStr ''m0'')],
                             JObj [(''path'', JStr ''INBOX''), (''id'', JStr ''m1'')]])]"
  let ?gmbs = "[JObj [(''path'', JStr ''Trash''), (''id'', JStr ''m0'')],
                JObj [(''path'', JStr ''INBOX''), (''id'', JStr ''m1'')]]"
  let ?gikvs = "[(''path'', JStr ''INBOX''), (''id'', JStr ''m1'')]"
  let ?bkvs = "[(''id'', JStr ''a1''),
      (''mailboxes'', JList [JObj [(''path'', JStr ''Trash''), (''id'', JStr ''m0'')]])]"
  let ?bmbs = "[JObj [(''path'', JStr ''Trash''), (''id'', JStr ''m0'')]]"
  let ?i1 = "\<lparr>address = Some ''abcdefghij@vvvcx.me'', password = Some ''thisispassword'',
       account_id = JStr ''a1'', mailbox_id = JStr ''m1''\<rparr>"
  let ?i2 = "\<lparr>address = Some ''klmnopqrst@vvvcx.me'', password = Some ''thisispassword'',
       account_id = JStr ''a1'', mailbox_id = JStr ''m1''\<rparr>"
  have k: "''key'' \<noteq> []" "(1::int) \<le> 3" "(2::int) \<le> 3" by simp_all
  have acct: "map_of ?gkvs ''id'' = Some (JStr ''a1'')" "map_of ?gkvs ''mailboxes'' = Some (JList ?gmbs)"
    "find_inbox ?gmbs = Inr (Some (JObj ?gikvs))" "map_of ?gikvs ''id'' = Some (JStr ''m1'')"
    by simp_all
  have a: "attempt_address ?good ?dom world0 = ''abcdefghij@vvvcx.me''"
    "attempt_address late_inbox ?dom world0 = ''abcdefghij@vvvcx.me''"
    "attempt_address late_inbox ?dom (sleep 3 (after_post late_inbox ?dom ?pw world0))
       = ''klmnopqrst@vvvcx.me''"
    by code_simp+
  \<comment> \<open>the first answer has an inbox\<close>
  have up1: "upstream ?good (length (calls world0)) (post_account (attempt_address ?good ?dom world0) ?pw)
      = Body (JObj ?gkvs)"
    by (simp add: provider_def good_account_def)
  from inbox_resolved[where e = ?good and api_key = "''key''" and domain = ?dom and pw = ?pw
      and max_retries = 3 and w = world0 and kvs = ?gkvs and aid = "JStr ''a1''" and mbs = ?gmbs
      and ikvs = ?gikvs and mid = "JStr ''m1''",
      THEN conjunct1, THEN conjunct2, THEN conjunct1] k up1 acct
  have run: "create_new_account ?good ''key'' ?dom ?pw 3 world0 =
      (Inr ?i1, after_post ?good ?dom ?pw world0)"
    by (simp add: a)
  from inbox_resolved[where e = ?good and api_key = "''key''" and domain = ?dom and pw = ?pw
      and max_retries = 3 and w = world0 and acct = ?i1
      and w' = "after_post ?good ?dom ?pw world0",
      THEN conjunct1, THEN conjunct1] run
  have ret: "\<exists>kvs mbs ikvs.
          upstream ?good (length (calls (after_post ?good ?dom ?pw world0)) - 1)
            (last (calls (after_post ?good ?dom ?pw world0))) = Body (JObj kvs)
        \<and> map_of kvs ''mailboxes'' = Some (JList mbs)
        \<and> JObj ikvs \<in> set mbs
        \<and> map_of ikvs ''path'' = Some (JStr ''INBOX'')
        \<and> map_of ikvs ''id'' = Some (JStr ''m1'')"
    by simp blast
  \<comment> \<open>the first answer has no inbox, the second has one\<close>
  have il: "inboxless (upstream late_inbox 0 (post_account ''abcdefghij@vvvcx.me'' ?pw))"
    by (simp add: late_inbox_def boxless_account_def)
  have up2: "inboxless (upstream late_inbox (length (calls world0))
        (post_account (attempt_address late_inbox ?dom world0) ?pw))"
    "upstream late_inbox (length (calls world0) + 1)
        (post_account (attempt_address late_inbox ?dom (sleep 3 (after_post late_inbox ?dom ?pw world0)))
           ?pw) = Body (JObj ?gkvs)"
    by (simp_all add: late_inbox_def boxless_account_def good_account_def world0_def)
  from inbox_resolved[where e = late_inbox and api_key = "''key''" and domain = ?dom and pw = ?pw
      and max_retries = 3 and w = world0 and kvs = ?gkvs and aid = "JStr ''a1''" and mbs = ?gmbs
      and ikvs = ?gikvs and mid = "JStr ''m1''",
      THEN conjunct1, THEN conjunct2, THEN conjunct2, THEN conjunct1] k up2 acct
  have late: "create_new_account late_inbox ''key'' ?dom ?pw 3 world0 =
      (Inr ?i2, after_post late_inbox ?dom ?pw (sleep 3 (after_post late_inbox ?dom ?pw world0)))"
    by (simp add: a)
  \<comment> \<open>no answer has an inbox\<close>
  have never: "\<forall>k r. inboxless (upstream ?bad k r)"
    by (simp add: provider_def boxless_account_def)
  from inbox_resolved[where e = ?bad and api_key = "''key''" and domain = ?dom and pw = ?pw
      and max_retries = 3 and w = world0,
      THEN conjunct1, THEN conjunct2, THEN conjunct2, THEN conjunct2] k never
  obtain w1 where
    r: "create_new_account ?bad ''key'' ?dom ?pw 3 world0 = (Inl AccountCreationError, w1)"
    and c: "calls w1 = calls world0 @ attempt_requests ?bad ?dom ?pw (rng_pos world0) (nat 3)"
    and sl: "sleeps w1 = sleeps world0 @ replicate (nat 3 - 1) 3"
    by blast
  have "length (calls w1) = 3" "sleeps w1 = [3, 3]"
    unfolding c sl by (simp_all add: attempt_requests_def world0_def eval_nat_numeral)
  with r have exhausted: "\<exists>w1. create_new_account ?bad ''key'' ?dom ?pw 3 world0
        = (Inl AccountCreationError, w1) \<and> length (calls w1) = 3 \<and> sleeps w1 = [3, 3]"
    by blast
  \<comment> \<open>single attempts\<close>
  have t: "try_create ?good ?dom ?pw fresh_client world0 = (None, ?i1, after_post ?good ?dom ?pw world0)"
  proof -
    have "try_create ?good ?dom ?pw fresh_client world0 =
       (None,
        fresh_client\<lparr>account_id := JStr ''a1'', address := Some (attempt_address ?good ?dom world0),
          password := Some ?pw, mailbox_id := JStr ''m1''\<rparr>,
        after_post ?good ?dom ?pw world0)"
      by (rule try_create_good[OF up1 acct])
    then show ?thesis by (simp add: a fresh_client_def)
  qed
  from inbox_resolved[where e = ?good and domain = ?dom and pw = ?pw and inst = fresh_client
      and w = world0 and ?inst1.0 = ?i1 and ?w1.0 = "after_post ?good ?dom ?pw world0",
      THEN conjunct2, THEN conjunct1] t
  have first: "\<exists>kvs mbs ikvs.
          upstream ?good (length (calls world0))
            (post_account (attempt_address ?good ?dom world0) ?pw) = Body (JObj kvs)
        \<and> map_of kvs ''mailboxes'' = Some (JList mbs)
        \<and> JObj ikvs \<in> set mbs
        \<and> map_of ikvs ''path'' = Some (JStr ''INBOX'')
        \<and> map_of ikvs ''id'' = Some (JStr ''m1'')"
    by simp
  have o: "list_all other_mailbox ?bmbs"
    by simp
  have h: "upstream ?bad (length (calls world0)) (post_account (attempt_address ?bad ?dom world0) ?pw)
      = Body (JObj ?bkvs)"
    "map_of ?bkvs ''id'' = Some (JStr ''a1'')"
    "dict_get (JObj ?bkvs) ''mailboxes'' (JList []) = Inr (JList ?bmbs)"
    by (simp_all add: provider_def boxless_account_def)
  from inbox_resolved[where e = ?bad and domain = ?dom and pw = ?pw and inst = fresh_client
      and w = world0 and ?kvs0.0 = ?bkvs and aid = "JStr ''a1''" and ?mbs0.0 = ?bmbs
      and attempt = 0 and max_retries = 3,
      THEN conjunct2, THEN conjunct2, THEN conjunct1] h o
  obtain inst2 where
    r3: "try_create ?bad ?dom ?pw fresh_client world0
            = (Some MailTmError, inst2, after_post ?bad ?dom ?pw world0)"
      "create_loop ?bad ?dom ?pw 3 0 fresh_client world0 =
       create_loop ?bad ?dom ?pw 3 (0 + 1) inst2 (sleep 3 (after_post ?bad ?dom ?pw world0))"
    by auto
  have m: "is_MailTmError MailTmError" by simp
  have r1: "create_loop ?bad ?dom ?pw 1 0 fresh_client world0 =
            (Inl AccountCreationError, after_post ?bad ?dom ?pw world0)"
    by (rule create_loop_last[OF _ r3(1) m]) simp
  from r3 r1 have second: "\<exists>inst2.
          try_create ?bad ?dom ?pw fresh_client world0
            = (Some MailTmError, inst2, after_post ?bad ?dom ?pw world0)
        \<and> create_loop ?bad ?dom ?pw 3 0 fresh_client world0 =
            create_loop ?bad ?dom ?pw 3 1 inst2 (sleep 3 (after_post ?bad ?dom ?pw world0))
        \<and> create_loop ?bad ?dom ?pw 1 0 fresh_client world0 =
            (Inl AccountCreationError, after_post ?bad ?dom ?pw world0)"
    by auto
  have f: "failed (upstream (provider RequestError) (length (calls world0))
         (post_account (attempt_address (provider RequestError) ?dom world0) ?pw))"
    by (simp add: failed_def provider_def)
  from inbox_resolved[where e = "provider RequestError" and domain = ?dom
      and pw = ?pw and inst = fresh_client and w = world0 and attempt = 0 and max_retries = 1,
      THEN conjunct2, THEN conjunct2, THEN conjunct2] f
  have third: "create_loop (provider RequestError) ?dom ?pw 1 0 fresh_client world0 =
         (Inl AccountCreationError, after_post (provider RequestError) ?dom ?pw world0)"
    by simp
  from run ret il late never exhausted t first o second f third show ?thesis by blast
qed

text \<open>
  Claim C6, as amended. If the provider fails on the first two creation calls and answers the
  third with an account that has an inbox, \<open>create_new_account\<close> succeeds after exactly 3
  creation requests and 2 sleeps of 3 seconds; the user name of each request is spelt by the
  next 10 draws of the random source, and the 3 addresses are pairwise distinct exactly when
  the 3 drawn user names are.
\<close>

theorem third_attempt_succeeds:
  assumes "api_key \<noteq> []" and "3 \<le> max_retries"
    and "\<forall>r. failed (upstream e (length (calls w)) r)"
    and "\<forall>r. failed (upstream e (length (calls w) + 1) r)"
    and "\<forall>r. upstream e (length (calls w) + 2) r = Body (JObj kvs)"
    and "map_of kvs ''id'' = Some aid" and "map_of kvs ''mailboxes'' = Some (JList mbs)"
    and "find_inbox mbs = Inr (Some (JObj ikvs))" and "map_of ikvs ''id'' = Some mid"
  shows "\<exists>w'. create_new_account e api_key domain pw max_retries w =
       (Inr \<lparr>address = Some (drawn e (rng_pos w + 20) 10 @ ''@'' @ domain), password = Some pw,
             account_id = aid, mailbox_id = mid\<rparr>, w')
     \<and> calls w' = calls w @ map (\<lambda>a. post_account a pw) (attempt_addresses e domain (rng_pos w) 3)
     \<and> sleeps w' = sleeps w @ [3, 3]
     \<and> attempt_addresses e domain (rng_pos w) 3 =
         [drawn e (rng_pos w) 10 @ ''@'' @ domain, drawn e (rng_pos w + 10) 10 @ ''@'' @ domain,
          drawn e (rng_pos w + 20) 10 @ ''@'' @ domain]
     \<and> (distinct (attempt_addresses e domain (rng_pos w) 3) \<longleftrightarrow>
          distinct [drawn e (rng_pos w) 10, drawn e (rng_pos w + 10) 10, drawn e (rng_pos w + 20) 10])"
proof -
  have "attempt_addresses e domain (rng_pos w) 3 =
         [drawn e (rng_pos w) 10 @ ''@'' @ domain, drawn e (rng_pos w + 10) 10 @ ''@'' @ domain,
          drawn e (rng_pos w + 20) 10 @ ''@'' @ domain]"
    by (simp add: attempt_addresses_def eval_nat_numeral)
  moreover have "attempt_requests e domain pw (rng_pos w) 3
      = map (\<lambda>a. post_account a pw) (attempt_addresses e domain (rng_pos w) 3)"
    by (simp add: attempt_requests_def attempt_addresses_def)
  ultimately show ?thesis
    using third_attempt[OF assms] three_attempts_world[of e domain pw w] by simp
qed

theorem third_attempt_succeeds_witness:
  "(\<forall>r. failed (upstream (flaky counting) 0 r)) \<and>
   (\<forall>r. failed (upstream (flaky counting) 1 r)) \<and>
   (\<forall>r. upstream (flaky counting) 2 r = Body good_account) \<and>
   (\<exists>w'. create_new_account (flaky counting) ''key'' ''vvvcx.me'' ''thisispassword'' 3 world0 =
       (Inr \<lparr>address = Some ''uvwxyz0123@vvvcx.me'', password = Some ''thisispassword'',
             account_id = JStr ''a1'', mailbox_id = JStr ''m1''\<rparr>, w')
     \<and> calls w' = [post_account ''abcdefghij@vvvcx.me'' ''thisispassword'',
                   post_account ''klmnopqrst@vvvcx.me'' ''thisispassword'',
                   post_account ''uvwxyz0123@vvvcx.me'' ''thisispassword'']
     \<and> sleeps w' = [3, 3])"
proof -
  have d: "drawn (flaky counting) 0 10 = ''abcdefghij''"
    "drawn (flaky counting) 10 10 = ''klmnopqrst''"
    "drawn (flaky counting) 20 10 = ''uvwxyz0123''"
    by code_simp+
  have h: "\<forall>r. failed (upstream (flaky counting) (length (calls world0)) r)"
    "\<forall>r. failed (upstream (flaky counting) (length (calls world0) + 1) r)"
    "\<forall>r. upstream (flaky counting) (length (calls world0) + 2) r =
        Body (JObj [(''id'', JStr ''a1''),
           (''mailboxes'', JList [JObj [(''path'', JStr ''Trash''), (''id'', JStr ''m0'')],
                                  JObj [(''path'', JStr ''INBOX''), (''id'', JStr ''m1'')]])])"
    by (simp_all add: flaky_def failed_def world0_def good_account_def)
  have g: "\<forall>r. failed (upstream (flaky counting) 0 r)"
    "\<forall>r. failed (upstream (flaky counting) 1 r)"
    "\<forall>r. upstream (flaky counting) 2 r = Body good_account"
    by (simp_all add: flaky_def failed_def)
  from third_attempt_succeeds[OF _ _ h _ _ good_account_inbox,
      of "''key''" 3 "JStr ''a1''" "JStr ''m1''" "''vvvcx.me''" "''thisispassword''"]
  obtain w' where
    r: "create_new_account (flaky counting) ''key'' ''vvvcx.me'' ''thisispassword'' 3 world0 =
       (Inr \<lparr>address = Some (drawn (flaky counting) (rng_pos world0 + 20) 10 @ ''@'' @ ''vvvcx.me''),
             password = Some ''thisispassword'',
             account_id = JStr ''a1'', mailbox_id = JStr ''m1''\<rparr>, w')"
    and c: "calls w' = calls world0 @
        map (\<lambda>a. post_account a ''thisispassword'')
          (attempt_addresses (flaky counting) ''vvvcx.me'' (rng_pos world0) 3)"
    and sl: "sleeps w' = sleeps world0 @ [3, 3]"
    and aa: "attempt_addresses (flaky counting) ''vvvcx.me'' (rng_pos world0) 3 =
         [drawn (flaky counting) (rng_pos world0) 10 @ ''@'' @ ''vvvcx.me'',
          drawn (flaky counting) (rng_pos world0 + 10) 10 @ ''@'' @ ''vvvcx.me'',
          drawn (flaky counting) (rng_pos world0 + 20) 10 @ ''@'' @ ''vvvcx.me'']"
    by auto
  have p: "rng_pos world0 = 0" "calls world0 = []" "sleeps world0 = []"
    by (simp_all add: world0_def)
  have "create_new_account (flaky counting) ''key'' ''vvvcx.me'' ''thisispassword'' 3 world0 =
       (Inr \<lparr>address = Some ''uvwxyz0123@vvvcx.me'', password = Some ''thisispassword'',
             account_id = JStr ''a1'', mailbox_id = JStr ''m1''\<rparr>, w')
     \<and> calls w' = [post_account ''abcdefghij@vvvcx.me'' ''thisispassword'',
                   post_account ''klmnopqrst@vvvcx.me'' ''thisispassword'',
                   post_account ''uvwxyz0123@vvvcx.me'' ''thisispassword'']
     \<and> sleeps w' = [3, 3]"
    using r sl by (simp add: c aa[unfolded p] p d)
  with g show ?thesis by blast
qed

text \<open>
  The claim as stated fails: nothing in the code keeps the draws apart, and a random source
  that repeats itself yields the same address three times.
\<close>

theorem third_attempt_succeeds_counterexample:
  "failed (upstream (flaky repeating) 0 (post_account ''aaaaaaaaaa@vvvcx.me'' ''thisispassword'')) \<and>
   failed (upstream (flaky repeating) 1 (post_account ''aaaaaaaaaa@vvvcx.me'' ''thisispassword'')) \<and>
   upstream (flaky repeating) 2 (post_account ''aaaaaaaaaa@vvvcx.me'' ''thisispassword'')
     = Body good_account \<and>
   create_new_account (flaky repeating) ''key'' ''vvvcx.me'' ''thisispassword'' 3 world0 =
     (Inr \<lparr>address = Some ''aaaaaaaaaa@vvvcx.me'', password = Some ''thisispassword'',
           account_id = JStr ''a1'', mailbox_id = JStr ''m1''\<rparr>,
      \<lparr>calls = [post_account ''aaaaaaaaaa@vvvcx.me'' ''thisispassword'',
                post_account ''aaaaaaaaaa@vvvcx.me'' ''thisispassword'',
                post_account ''aaaaaaaaaa@vvvcx.me'' ''thisispassword''],
       sleeps = [3, 3], now = 6, rng_pos = 30, sessions_closed = 0\<rparr>) \<and>
   \<not> distinct [''aaaaaaaaaa@vvvcx.me'', ''aaaaaaaaaa@vvvcx.me'', ''aaaaaaaaaa@vvvcx.me'']"
proof -
  have d: "drawn (flaky repeating) 0 10 = ''aaaaaaaaaa''"
    "drawn (flaky repeating) 10 10 = ''aaaaaaaaaa''"
    "drawn (flaky repeating) 20 10 = ''aaaaaaaaaa''"
    by code_simp+
  have h: "\<forall>r. failed (upstream (flaky repeating) (length (calls world0)) r)"
    "\<forall>r. failed (upstream (flaky repeating) (length (calls world0) + 1) r)"
    "\<forall>r. upstream (flaky repeating) (length (calls world0) + 2) r =
        Body (JObj [(''id'', JStr ''a1''),
           (''mailboxes'', JList [JObj [(''path'', JStr ''Trash''), (''id'', JStr ''m0'')],
                                  JObj [(''path'', JStr ''INBOX''), (''id'', JStr ''m1'')]])])"
    by (simp_all add: flaky_def failed_def world0_def good_account_def)
  have l: "latency (flaky repeating) k = 0" for k
    by (simp add: flaky_def)
  have "create_new_account (flaky repeating) ''key'' ''vvvcx.me'' ''thisispassword'' 3 world0 =
     (Inr \<lparr>address = Some ''aaaaaaaaaa@vvvcx.me'', password = Some ''thisispassword'',
           account_id = JStr ''a1'', mailbox_id = JStr ''m1''\<rparr>,
      \<lparr>calls = [post_account ''aaaaaaaaaa@vvvcx.me'' ''thisispassword'',
                post_account ''aaaaaaaaaa@vvvcx.me'' ''thisispassword'',
                post_account ''aaaaaaaaaa@vvvcx.me'' ''thisispassword''],
       sleeps = [3, 3], now = 6, rng_pos = 30, sessions_closed = 0\<rparr>)"
    by (subst third_attempt[OF _ _ h _ _ good_account_inbox,
          where aid = "JStr ''a1''" and mid = "JStr ''m1''"])
      (simp_all add: after_post_def sleep_def attempt_address_def world0_def d l)
  then show ?thesis by (simp add: flaky_fails flaky_recovers)
qed

section \<open>The endpoint \<open>POST /api/wait_for_message\<close>: statuses\<close>

lemma api_wait_unfold:
  assumes "key \<noteq> []" and "map_of kvs ''accountId'' = Some aid" and "map_of kvs ''mailboxId'' = Some mid"
    and "py_int e (requested kvs ''timeout'' (JNum 60)) = Inr t"
    and "py_int e (requested kvs ''interval'' (JNum 5)) = Inr i"
  shows "api_wait_for_message e (Some key) (JObj kvs) w =
     (case wait_for_message e (fresh_client\<lparr>account_id := aid, mailbox_id := mid\<rparr>) t i w of
        None \<Rightarrow> None
      | Some (Inr message, w1) \<Rightarrow> Some (Inr (MessageBody message, 200), close_session w1)
      | Some (Inl err, w1) \<Rightarrow>
          if err = MessageTimeoutError then Some (Inr (ErrorBody, 408), close_session w1)
          else if is_MailTmError err then Some (Inr (ErrorBody, 500), close_session w1)
          else Some (Inl err, close_session w1))"
proof -
  from assms(2) have "kvs \<noteq> []" by auto
  with assms show ?thesis
    by (simp add: api_wait_for_message_def MailTmClient_def fresh_client_def requested_def)
qed

text \<open>
  Claim C7. With an API key configured: the endpoint answers 400, without any request to the
  provider, when the body is empty or is an object that lacks \<open>accountId\<close> or \<open>mailboxId\<close>.
  When both are present and \<open>timeout\<close> and \<open>interval\<close> (60 and 5 by default) convert to
  integers, the endpoint polls once, and nothing else reaches the provider (the world after
  the endpoint is the world after the poll, with the session closed): the status is 408
  exactly when the poll raised \<open>MessageTimeoutError\<close>, 200 with the message when the poll
  returned one, and 500 on every other error of the poll.
\<close>

theorem api_wait_for_message_status:
  assumes "key \<noteq> []"
  shows "(\<not> truthy data \<longrightarrow>
       api_wait_for_message e (Some key) data w = Some (Inr (ErrorBody, 400), w))
   \<and> (map_of kvs ''accountId'' = None \<or> map_of kvs ''mailboxId'' = None \<longrightarrow>
       api_wait_for_message e (Some key) (JObj kvs) w = Some (Inr (ErrorBody, 400), w))
   \<and> (map_of kvs ''accountId'' = Some aid \<and> map_of kvs ''mailboxId'' = Some mid
        \<and> py_int e (requested kvs ''timeout'' (JNum 60)) = Inr t
        \<and> py_int e (requested kvs ''interval'' (JNum 5)) = Inr i
        \<and> wait_for_message e (fresh_client\<lparr>account_id := aid, mailbox_id := mid\<rparr>) t i w = Some (r, w1)
       \<longrightarrow>
       (\<exists>res. api_wait_for_message e (Some key) (JObj kvs) w = Some (res, close_session w1)
          \<and> calls (close_session w1) = calls w1
          \<and> (http_status res = 408 \<longleftrightarrow> r = Inl MessageTimeoutError)
          \<and> (\<forall>m. r = Inr m \<longrightarrow> res = Inr (MessageBody m, 200))
          \<and> (\<forall>err. r = Inl err \<and> err \<noteq> MessageTimeoutError \<longrightarrow> http_status res = 500)))"
proof (intro conjI impI)
  assume "\<not> truthy data"
  then show "api_wait_for_message e (Some key) data w = Some (Inr (ErrorBody, 400), w)"
    using assms by (simp add: api_wait_for_message_def)
next
  assume "map_of kvs ''accountId'' = None \<or> map_of kvs ''mailboxId'' = None"
  then show "api_wait_for_message e (Some key) (JObj kvs) w = Some (Inr (ErrorBody, 400), w)"
    using assms by (auto simp: api_wait_for_message_def)
next
  assume h: "map_of kvs ''accountId'' = Some aid \<and> map_of kvs ''mailboxId'' = Some mid
        \<and> py_int e (requested kvs ''timeout'' (JNum 60)) = Inr t
        \<and> py_int e (requested kvs ''interval'' (JNum 5)) = Inr i
        \<and> wait_for_message e (fresh_client\<lparr>account_id := aid, mailbox_id := mid\<rparr>) t i w = Some (r, w1)"
  then have u: "api_wait_for_message e (Some key) (JObj kvs) w =
     (case r of
        Inr message \<Rightarrow> Some (Inr (MessageBody message, 200), close_session w1)
      | Inl err \<Rightarrow>
          if err = MessageTimeoutError then Some (Inr (ErrorBody, 408), close_session w1)
          else if is_MailTmError err then Some (Inr (ErrorBody, 500), close_session w1)
          else Some (Inl err, close_session w1))"
    using assms by (simp add: api_wait_unfold split: sum.splits)
  show "\<exists>res. api_wait_for_message e (Some key) (JObj kvs) w = Some (res, close_session w1)
          \<and> calls (close_session w1) = calls w1
          \<and> (http_status res = 408 \<longleftrightarrow> r = Inl MessageTimeoutError)
          \<and> (\<forall>m. r = Inr m \<longrightarrow> res = Inr (MessageBody m, 200))
          \<and> (\<forall>err. r = Inl err \<and> err \<noteq> MessageTimeoutError \<longrightarrow> http_status res = 500)"
  proof (cases r)
    case (Inl err)
    then show ?thesis
      unfolding u by (simp add: http_status_def close_session_def)
  next
    case (Inr m)
    then show ?thesis
      unfolding u by (simp add: http_status_def close_session_def)
  qed
qed

theorem api_wait_for_message_status_witness:
  "api_wait_for_message (provider (Body (JList [hello]))) (Some ''key'') JNull world0 =
      Some (Inr (ErrorBody, 400), world0)
   \<and> api_wait_for_message (provider (Body (JList [hello]))) (Some ''key'')
      (JObj [(''mailboxId'', JStr ''m1'')]) world0 = Some (Inr (ErrorBody, 400), world0)
   \<and> wait_for_message (provider (Body (JList []))) caller 10 4 world0 =
       Some (Inl MessageTimeoutError,
             world0\<lparr>calls := replicate 3 (fetch caller), sleeps := [4, 4, 4], now := 12\<rparr>)
   \<and> (\<exists>res. api_wait_for_message (provider (Body (JList []))) (Some ''key'')
          (JObj (wait_body @ [(''timeout'', JNum 10), (''interval'', JNum 4)])) world0 =
          Some (res, close_session
             (world0\<lparr>calls := replicate 3 (fetch caller), sleeps := [4, 4, 4], now := 12\<rparr>))
        \<and> http_status res = 408)
   \<and> wait_for_message (provider (Body (JList [hello]))) caller 60 5 world0 =
       Some (Inr hello, world0\<lparr>calls := [fetch caller]\<rparr>)
   \<and> api_wait_for_message (provider (Body (JList [hello]))) (Some ''key'') (JObj wait_body) world0 =
       Some (Inr (MessageBody hello, 200), close_session (world0\<lparr>calls := [fetch caller]\<rparr>))
   \<and> wait_for_message (provider RequestError) caller 60 5 world0 =
       Some (Inl MailTmError, world0\<lparr>calls := [fetch caller]\<rparr>)
   \<and> (\<exists>res. api_wait_for_message (provider RequestError) (Some ''key'') (JObj wait_body) world0 =
          Some (res, close_session (world0\<lparr>calls := [fetch caller]\<rparr>))
        \<and> http_status res = 500)"
proof -
  have k: "''key'' \<noteq> []" by simp
  note st = api_wait_for_message_status[OF k]
  have c0: "api_wait_for_message (provider (Body (JList [hello]))) (Some ''key'') JNull world0 =
      Some (Inr (ErrorBody, 400), world0)"
    using st[where data = JNull and e = "provider (Body (JList [hello]))" and w = world0]
    by simp
  have c1: "api_wait_for_message (provider (Body (JList [hello]))) (Some ''key'')
      (JObj [(''mailboxId'', JStr ''m1'')]) world0 = Some (Inr (ErrorBody, 400), world0)"
    using st[where kvs = "[(''mailboxId'', JStr ''m1'')]" and e = "provider (Body (JList [hello]))"
        and w = world0]
    by simp
  have ae: "always_empty (provider (Body (JList []))) caller"
    by (simp add: always_empty_def provider_def caller_def fetch_def)
  have w2: "wait_for_message (provider (Body (JList []))) caller 10 4 world0 =
       Some (Inl MessageTimeoutError,
             world0\<lparr>calls := replicate 3 (fetch caller), sleeps := [4, 4, 4], now := 12\<rparr>)"
    using poll_times_out[OF ae, of 4 10 world0 "now world0" 3]
    by (simp add: wait_for_message_def world0_def eval_nat_numeral)
  have c2: "\<exists>res. api_wait_for_message (provider (Body (JList []))) (Some ''key'')
          (JObj (wait_body @ [(''timeout'', JNum 10), (''interval'', JNum 4)])) world0 =
          Some (res, close_session
             (world0\<lparr>calls := replicate 3 (fetch caller), sleeps := [4, 4, 4], now := 12\<rparr>))
        \<and> http_status res = 408"
    using st[where kvs = "wait_body @ [(''timeout'', JNum 10), (''interval'', JNum 4)]"
        and aid = "JStr ''a1''" and mid = "JStr ''m1''" and e = "provider (Body (JList []))"
        and t = 10 and i = 4 and w = world0 and r = "Inl MessageTimeoutError"
        and ?w1.0 = "world0\<lparr>calls := replicate 3 (fetch caller), sleeps := [4, 4, 4], now := 12\<rparr>"]
      w2
    by (simp add: wait_body_def requested_def caller_def) blast
  have g3: "get_latest_message (provider (Body (JList [hello]))) caller world0 =
      (Inr hello, world0\<lparr>calls := [fetch caller]\<rparr>)"
    by (simp add: get_latest_message_def request_def provider_def caller_def fresh_client_def
        world0_def hello_def fetch_def)
  have w3: "wait_for_message (provider (Body (JList [hello]))) caller 60 5 world0 =
       Some (Inr hello, world0\<lparr>calls := [fetch caller]\<rparr>)"
    unfolding wait_for_message_def
    by (rule poll_found[OF _ g3]) (simp_all add: hello_def)
  have c3: "api_wait_for_message (provider (Body (JList [hello]))) (Some ''key'') (JObj wait_body) world0 =
       Some (Inr (MessageBody hello, 200), close_session (world0\<lparr>calls := [fetch caller]\<rparr>))"
    using st[where kvs = wait_body and aid = "JStr ''a1''" and mid = "JStr ''m1''"
        and e = "provider (Body (JList [hello]))" and t = 60 and i = 5 and w = world0
        and r = "Inr hello" and ?w1.0 = "world0\<lparr>calls := [fetch caller]\<rparr>"] w3
    by (simp add: wait_body_def requested_def caller_def)
  have g4: "get_latest_message (provider RequestError) caller world0 =
      (Inl MailTmError, world0\<lparr>calls := [fetch caller]\<rparr>)"
    by (simp add: get_latest_message_def request_def provider_def caller_def fresh_client_def
        world0_def fetch_def)
  have w4: "wait_for_message (provider RequestError) caller 60 5 world0 =
       Some (Inl MailTmError, world0\<lparr>calls := [fetch caller]\<rparr>)"
    unfolding wait_for_message_def
    by (rule poll_raises[OF _ g4]) simp
  have c4: "\<exists>res. api_wait_for_message (provider RequestError) (Some ''key'') (JObj wait_body) world0 =
          Some (res, close_session (world0\<lparr>calls := [fetch caller]\<rparr>))
        \<and> http_status res = 500"
    using st[where kvs = wait_body and aid = "JStr ''a1''" and mid = "JStr ''m1''"
        and e = "provider RequestError" and t = 60 and i = 5 and w = world0
        and r = "Inl MailTmError" and ?w1.0 = "world0\<lparr>calls := [fetch caller]\<rparr>"] w4
    by (simp add: wait_body_def requested_def caller_def) blast
  from c0 c1 w2 c2 w3 c3 w4 c4 show ?thesis by blast
qed

end
